theory Spec2Isabelle
  imports Main
begin

section \<open>JavaScript strings and values\<close>

text \<open>
  JavaScript strings are modelled as \<open>string\<close>. A value that may be \<open>undefined\<close> or
  \<open>null\<close> is an \<open>option\<close>; \<open>truthy\<close> is the test JavaScript applies to such a string in
  a condition (absent and empty strings are falsy).
\<close>

definition truthy :: "string option \<Rightarrow> bool" where
  "truthy v = (case v of None \<Rightarrow> False | Some s \<Rightarrow> s \<noteq> [])"

definition js_or :: "string option \<Rightarrow> string option \<Rightarrow> string option" where
  "js_or a b = (if truthy a then a else b)"

definition startsWith :: "string \<Rightarrow> string \<Rightarrow> bool" where
  "startsWith s p = (take (length p) s = p)"

fun js_includes :: "string \<Rightarrow> string \<Rightarrow> bool" where
  "js_includes [] p = (p = [])"
| "js_includes (c # cs) p = (startsWith (c # cs) p \<or> js_includes cs p)"

text \<open>\<open>s.split(sep)\<close> for a one-character separator: never returns the empty array.\<close>

fun splitOn :: "char \<Rightarrow> string \<Rightarrow> string list" where
  "splitOn sep [] = [[]]"
| "splitOn sep (c # cs) =
     (if c = sep then [] # splitOn sep cs
      else (case splitOn sep cs of
              [] \<Rightarrow> [[c]]
            | w # ws \<Rightarrow> (c # w) # ws))"

text \<open>
  The white space \<open>trim()\<close> removes, for the code units a \<open>char\<close> can hold: tab, line
  feed, vertical tab, form feed, carriage return, space and the no-break space.
\<close>

definition isWhiteSpace :: "char \<Rightarrow> bool" where
  "isWhiteSpace c = (c \<in> set [CHR 0x09, CHR 0x0A, CHR 0x0B, CHR 0x0C, CHR 0x0D, CHR 0x20, CHR 0xA0])"

definition trim :: "string \<Rightarrow> string" where
  "trim s = rev (dropWhile isWhiteSpace (rev (dropWhile isWhiteSpace s)))"

text \<open>\<open>toLowerCase\<close> on the letters an address can contain (ASCII).\<close>

definition toLowerCase :: "string \<Rightarrow> string" where
  "toLowerCase s =
     map (\<lambda>c. case map_of (zip ''ABCDEFGHIJKLMNOPQRSTUVWXYZ'' ''abcdefghijklmnopqrstuvwxyz'') c of
                None \<Rightarrow> c
              | Some l \<Rightarrow> l) s"

fun string_of_nat :: "nat \<Rightarrow> string" where
  "string_of_nat n =
     (if n < 10 then [''0123456789'' ! n]
      else string_of_nat (n div 10) @ [''0123456789'' ! (n mod 10)])"

declare string_of_nat.simps [simp del]

text \<open>Every \<open>throw\<close> of the modelled code is a value of this type.\<close>

datatype error =
    AccountsFileMissing string
  | ReadFailed string
  | NoValidAccounts
  | InvalidPrivateKey
  | WalletRejected
  | MalformedSignature
  | RequestError string

section \<open>Accounts and network identities\<close>

record proxy_config =
  host :: "string option"
  port :: "string option"
  username :: "string option"
  password :: "string option"

record account =
  privateKey :: string
  accountAlias :: string
  address :: "string option"
  proxy :: "proxy_config option"

section \<open>KeyManager\<close>

text \<open>
  What \<open>fs\<close> finds at the resolved accounts path: nothing, something that exists but
  cannot be read as a file (\<open>readFileSync\<close> throws), or a file with its content.
\<close>

datatype fs_entry = Absent | Unreadable string | File string

text \<open>
  \<open>new ethers.Wallet(key)\<close> belongs to the ethers library. It is a parameter
  \<open>wallet\<close>: \<open>None\<close> when the constructor throws, otherwise the address of the wallet.
\<close>

definition normalizeKey :: "string \<Rightarrow> string" where
  "normalizeKey k = (if \<not> startsWith k ''0x'' then ''0x'' @ k else k)"

text \<open>The callback of \<open>accounts.filter\<close> in \<open>loadAccounts\<close>: it mutates the account it keeps.\<close>

definition validateAccount :: "(string \<Rightarrow> string option) \<Rightarrow> account \<Rightarrow> account option" where
  "validateAccount wallet a =
     (let a1 = a\<lparr>privateKey := normalizeKey (privateKey a)\<rparr>
      in case wallet (privateKey a1) of
           None \<Rightarrow> None
         | Some addr \<Rightarrow> Some (a1\<lparr>address := Some addr\<rparr>))"

definition keyLines :: "string \<Rightarrow> string list" where
  "keyLines accountsData =
     filter (\<lambda>line. line \<noteq> [] \<and> \<not> startsWith line ''#'')
       (map trim (splitOn CHR 0x0A accountsData))"

definition rawAccounts :: "string \<Rightarrow> account list" where
  "rawAccounts accountsData =
     map (\<lambda>(index, key).
            \<lparr>privateKey = key, accountAlias = ''Account '' @ string_of_nat (index + 1),
             address = None, proxy = None\<rparr>)
         (enumerate 0 (keyLines accountsData))"

definition loadAccounts ::
  "(string \<Rightarrow> string option) \<Rightarrow> (string \<Rightarrow> fs_entry) \<Rightarrow> string \<Rightarrow> error + account list" where
  "loadAccounts wallet fs accountsFile =
     (case fs accountsFile of
        Absent \<Rightarrow> Inl (AccountsFileMissing accountsFile)
      | Unreadable msg \<Rightarrow> Inl (ReadFailed msg)
      | File accountsData \<Rightarrow> Inr (List.map_filter (validateAccount wallet) (rawAccounts accountsData)))"

section \<open>ProxyManager\<close>

record network_config =
  useProxy :: bool
  useDynamicProxy :: bool
  proxyHost :: "string option"
  proxyPort :: "string option"
  proxyUsername :: "string option"
  proxyPassword :: "string option"

text \<open>\<open>loadProxyConfig\<close> computes the field \<open>dynamicProxy\<close> of the manager; \<open>env\<close> holds the
  four \<open>PROXY_*\<close> environment variables the code falls back to.\<close>

definition loadProxyConfig :: "network_config \<Rightarrow> proxy_config \<Rightarrow> proxy_config option" where
  "loadProxyConfig cfg env =
     (if \<not> useProxy cfg then None
      else if useDynamicProxy cfg then
        (let dp = \<lparr>host = js_or (proxyHost cfg) (host env),
                   port = js_or (proxyPort cfg) (port env),
                   username = js_or (proxyUsername cfg) (username env),
                   password = js_or (proxyPassword cfg) (password env)\<rparr>
         in if \<not> truthy (host dp) \<or> \<not> truthy (port dp) then None else Some dp)
      else None)"

definition getDynamicProxy :: "network_config \<Rightarrow> proxy_config option \<Rightarrow> proxy_config option" where
  "getDynamicProxy cfg dynamicProxy =
     (if \<not> useProxy cfg \<or> dynamicProxy = None then None else dynamicProxy)"

definition hasExplicitProxy :: "'a account_scheme \<Rightarrow> bool" where
  "hasExplicitProxy a = (case proxy a of None \<Rightarrow> False | Some p \<Rightarrow> truthy (host p))"

definition assignProxiesToAccounts ::
  "network_config \<Rightarrow> proxy_config option \<Rightarrow> 'a account_scheme list \<Rightarrow> 'a account_scheme list" where
  "assignProxiesToAccounts cfg dynamicProxy accounts =
     (case getDynamicProxy cfg dynamicProxy of
        None \<Rightarrow>
          map (\<lambda>a. a\<lparr>proxy := Some \<lparr>host = None, port = None, username = None, password = None\<rparr>\<rparr>)
              accounts
      | Some p \<Rightarrow>
          map (\<lambda>a. if hasExplicitProxy a then a else a\<lparr>proxy := Some p\<rparr>) accounts)"

section \<open>TaskManager\<close>

record worker_thread =
  workerId :: nat
  workerAccount :: account

text \<open>\<open>TaskManager.loadAccounts\<close>: the key manager's accounts, refused when empty, then
  given their proxies.\<close>

definition TaskManager_loadAccounts ::
  "(string \<Rightarrow> string option) \<Rightarrow> (string \<Rightarrow> fs_entry) \<Rightarrow> string \<Rightarrow>
   network_config \<Rightarrow> proxy_config option \<Rightarrow> error + account list" where
  "TaskManager_loadAccounts wallet fs accountsFile cfg dynamicProxy =
     (case loadAccounts wallet fs accountsFile of
        Inl e \<Rightarrow> Inl e
      | Inr accounts \<Rightarrow>
          if length accounts = 0 then Inl NoValidAccounts
          else Inr (assignProxiesToAccounts cfg dynamicProxy accounts))"

text \<open>The \<open>for\<close> loop of \<open>start\<close>: \<open>i\<close> runs from the current index up to \<open>threadCount\<close>,
  and worker \<open>i + 1\<close> receives \<open>accounts[i]\<close>.\<close>

function spawnLoop :: "nat \<Rightarrow> nat \<Rightarrow> account list \<Rightarrow> worker_thread list \<Rightarrow> worker_thread list" where
  "spawnLoop i threadCount accounts workers =
     (if i < threadCount \<and> i < length accounts
      then spawnLoop (i + 1) threadCount accounts
             (workers @ [\<lparr>workerId = i + 1, workerAccount = accounts ! i\<rparr>])
      else workers)"
  by pat_completeness auto
termination
  by (relation "measure (\<lambda>(i, threadCount, accounts, workers). threadCount - i)") auto

declare spawnLoop.simps [simp del]

text \<open>\<open>start\<close>, up to the creation of the worker threads. \<open>maxWorkers\<close> is
  \<open>config.concurrency.maxWorkers\<close>; the result lists the threads created. After the loop
  \<open>start\<close> waits for the threads to exit and saves the results; it creates no thread.\<close>

definition start :: "bool \<Rightarrow> nat \<Rightarrow> (error + account list) \<Rightarrow> error + worker_thread list" where
  "start isRunning maxWorkers loaded =
     (if isRunning then Inr []
      else case loaded of
        Inl e \<Rightarrow> Inl e
      | Inr accounts \<Rightarrow>
          if length accounts = 0 then Inl NoValidAccounts
          else
            (let maxThreads = (if maxWorkers = 0 then 5 else maxWorkers);
                 threadCount = min maxThreads (length accounts)
             in Inr (spawnLoop 0 threadCount accounts [])))"

section \<open>EthSigner\<close>

text \<open>
  The ethers library is a parameter: \<open>computeAddress key\<close> is the address of
  \<open>new ethers.Wallet(key)\<close> (\<open>None\<close> when the constructor throws), \<open>signWith key m\<close> is
  \<open>wallet.signMessage(m)\<close> and \<open>verifyMessage m sig\<close> is \<open>ethers.utils.verifyMessage\<close>
  (\<open>None\<close> when it throws on a malformed signature).
\<close>

record ethers_lib =
  computeAddress :: "string \<Rightarrow> string option"
  signWith :: "string \<Rightarrow> string \<Rightarrow> string"
  verifyMessage :: "string \<Rightarrow> string \<Rightarrow> string option"

record eth_signer =
  wallet :: string
  signerAddress :: string

definition EthSigner_new :: "ethers_lib \<Rightarrow> string \<Rightarrow> error + eth_signer" where
  "EthSigner_new lib key =
     (if key = [] \<or> \<not> startsWith key ''0x'' then Inl InvalidPrivateKey
      else case computeAddress lib key of
             None \<Rightarrow> Inl WalletRejected
           | Some a \<Rightarrow> Inr \<lparr>wallet = key, signerAddress = a\<rparr>)"

definition signMessage :: "ethers_lib \<Rightarrow> eth_signer \<Rightarrow> string \<Rightarrow> string" where
  "signMessage lib signer message = signWith lib (wallet signer) message"

definition verifySignature :: "ethers_lib \<Rightarrow> eth_signer \<Rightarrow> string \<Rightarrow> string \<Rightarrow> error + bool" where
  "verifySignature lib signer message signature =
     (case verifyMessage lib message signature of
        None \<Rightarrow> Inl MalformedSignature
      | Some recoveredAddress \<Rightarrow>
          Inr (toLowerCase recoveredAddress = toLowerCase (signerAddress signer)))"

section \<open>HttpClient: rate limit\<close>

text \<open>
  Times are milliseconds as \<open>Date.now()\<close> returns them. \<open>retain now ts\<close> is the filter
  of \<open>checkRateLimit\<close>. The clock is explicit: the call starts at \<open>now\<close>, and the
  \<open>k\<close>-th \<open>delay(waitTime)\<close> ends \<open>waitTime + lag k\<close> milliseconds later, \<open>lag k\<close> being
  how late the timer fires. The result is the time at which the call returns, the
  timestamps then stored, and the waits made, in order.
\<close>

definition retain :: "int \<Rightarrow> int list \<Rightarrow> int list" where
  "retain now ts = filter (\<lambda>timestamp. now - timestamp < 60000) ts"

definition waitTimeFor :: "int \<Rightarrow> int list \<Rightarrow> int" where
  "waitTimeFor now kept = max 1 (hd kept + 60000 - now)"

lemma retain_shrinks_after_wait:
  assumes "kept \<noteq> []" and "now + waitTimeFor now kept \<le> later"
  shows "length (retain later kept) < length kept"
proof -
  have "hd kept \<in> set kept" using assms(1) by simp
  moreover have "\<not> later - hd kept < 60000"
    using assms(2) by (simp add: waitTimeFor_def)
  ultimately show ?thesis
    unfolding retain_def by (rule length_filter_less)
qed

function checkRateLimit ::
  "nat \<Rightarrow> (nat \<Rightarrow> nat) \<Rightarrow> nat \<Rightarrow> int \<Rightarrow> int list \<Rightarrow> int \<times> int list \<times> int list" where
  "checkRateLimit limit lag k now ts =
     (if limit = 0 then (now, ts, [])
      else if limit \<le> length (retain now ts) then
        (case checkRateLimit limit lag (k + 1)
                (now + waitTimeFor now (retain now ts) + int (lag k)) (retain now ts) of
           (returned, stored, waits) \<Rightarrow>
             (returned, stored, waitTimeFor now (retain now ts) # waits))
      else (now, retain now ts @ [now], []))"
  by pat_completeness auto
termination
proof (relation "measure (\<lambda>(limit, lag, k, now, ts). length (retain now ts))", goal_cases)
  case 1
  show ?case by simp
next
  case (2 limit lag k now ts)
  then have "retain now ts \<noteq> []" by auto
  then have "length (retain (now + waitTimeFor now (retain now ts) + int (lag k)) (retain now ts))
             < length (retain now ts)"
    by (rule retain_shrinks_after_wait [where now = now]) simp
  then show ?case by simp
qed

declare checkRateLimit.simps [simp del]

section \<open>HttpClient: requests\<close>

text \<open>
  The endpoint memory \<open>endpointHeadersFormat\<close> is a plain object. Its own properties are
  the strings the client stored; reading a key it does not own finds the members that
  every object inherits from \<open>Object.prototype\<close>, which are functions (an object for
  \<open>__proto__\<close>) and truthy. A value read from the memory is therefore a string or such
  an inherited member. Assigning a string to the key \<open>__proto__\<close> stores nothing.
\<close>

datatype js_value = Text string | Inherited string

definition objectPrototypeKeys :: "string list" where
  "objectPrototypeKeys =
     [''constructor'', ''__defineGetter__'', ''__defineSetter__'', ''hasOwnProperty'',
      ''__lookupGetter__'', ''__lookupSetter__'', ''isPrototypeOf'', ''propertyIsEnumerable'',
      ''toString'', ''valueOf'', ''__proto__'', ''toLocaleString'']"

definition getProperty :: "(string \<Rightarrow> string option) \<Rightarrow> string \<Rightarrow> js_value option" where
  "getProperty obj key =
     (case obj key of
        Some v \<Rightarrow> Some (Text v)
      | None \<Rightarrow> if key \<in> set objectPrototypeKeys then Some (Inherited key) else None)"

definition assignProperty ::
  "(string \<Rightarrow> string option) \<Rightarrow> string \<Rightarrow> string \<Rightarrow> (string \<Rightarrow> string option)" where
  "assignProperty obj key v = (if key = ''__proto__'' then obj else obj(key \<mapsto> v))"

definition truthyValue :: "js_value option \<Rightarrow> bool" where
  "truthyValue v = (case v of None \<Rightarrow> False | Some (Text s) \<Rightarrow> s \<noteq> [] | Some (Inherited k) \<Rightarrow> True)"

text \<open>The per-call \<open>options\<close> object of \<open>request\<close>; an absent property is \<open>None\<close>.\<close>

record request_options =
  url :: "string option"
  headersFormat :: "js_value option"
  timeout :: "nat option"
  maxRetries :: "nat option"
  retryDelay :: "nat option"

text \<open>The client: the fields of \<open>this.options\<close> the request path reads or writes, and the
  client's own fields.\<close>

record http_client =
  optMaxRetries :: nat
  optRetryDelay :: nat
  optRateLimit :: nat
  optTimeout :: nat
  ja3Fingerprint :: string
  requestTimestamps :: "int list"
  endpointHeadersFormat :: "string \<Rightarrow> string option"
  defaultHeadersFormat :: string

text \<open>
  \<open>getRandomJa3Fingerprint\<close>: \<open>configured\<close> is \<open>config.security.ja3Fingerprints\<close>,
  \<open>fallback\<close> the built-in list \<open>commonJA3\<close> (three entries in the source), and \<open>r\<close> the
  value of \<open>Math.floor(Math.random() * length)\<close>, reduced to the range it always has.
\<close>

definition getRandomJa3Fingerprint :: "string list \<Rightarrow> string list \<Rightarrow> nat \<Rightarrow> string" where
  "getRandomJa3Fingerprint configured fallback r =
     (if length configured > 0 then configured ! (r mod length configured)
      else fallback ! (r mod length fallback))"

text \<open>The constructor: defaults, overridden by the options given (\<open>None\<close> when absent).\<close>

definition HttpClient_new ::
  "nat option \<Rightarrow> nat option \<Rightarrow> nat option \<Rightarrow> nat option \<Rightarrow> string \<Rightarrow> http_client" where
  "HttpClient_new maxRetriesOpt retryDelayOpt rateLimitOpt timeoutOpt fingerprint =
     \<lparr>optMaxRetries = (case maxRetriesOpt of None \<Rightarrow> 3 | Some v \<Rightarrow> v),
      optRetryDelay = (case retryDelayOpt of None \<Rightarrow> 2000 | Some v \<Rightarrow> v),
      optRateLimit = (case rateLimitOpt of None \<Rightarrow> 30 | Some v \<Rightarrow> v),
      optTimeout = (case timeoutOpt of None \<Rightarrow> 60000 | Some v \<Rightarrow> v),
      ja3Fingerprint = fingerprint,
      requestTimestamps = [],
      endpointHeadersFormat = (\<lambda>key. None),
      defaultHeadersFormat = ''object''\<rparr>"

text \<open>\<open>getEndpointKey\<close>: \<open>pathnameOf\<close> is \<open>new URL(url).pathname\<close>, \<open>None\<close> when the
  constructor throws.\<close>

definition getEndpointKey :: "(string \<Rightarrow> string option) \<Rightarrow> string \<Rightarrow> string" where
  "getEndpointKey pathnameOf u =
     (case pathnameOf u of
        Some pathname \<Rightarrow>
          (let pathParts = filter (\<lambda>part. part \<noteq> []) (splitOn CHR ''/'' pathname)
           in if length pathParts > 0 then last pathParts else [])
      | None \<Rightarrow>
          (let parts = splitOn CHR ''/'' u
           in if length parts > 0 then hd (splitOn CHR ''?'' (last parts)) else []))"

definition getHeadersFormatForEndpoint ::
  "(string \<Rightarrow> string option) \<Rightarrow> http_client \<Rightarrow> string \<Rightarrow> js_value" where
  "getHeadersFormatForEndpoint pathnameOf c u =
     (let endpointKey = getEndpointKey pathnameOf u
      in if endpointKey \<noteq> [] \<and> truthyValue (getProperty (endpointHeadersFormat c) endpointKey)
         then the (getProperty (endpointHeadersFormat c) endpointKey)
         else Text (defaultHeadersFormat c))"

definition updateHeadersFormatForEndpoint ::
  "(string \<Rightarrow> string option) \<Rightarrow> http_client \<Rightarrow> string \<Rightarrow> string \<Rightarrow> http_client" where
  "updateHeadersFormatForEndpoint pathnameOf c u format =
     (let endpointKey = getEndpointKey pathnameOf u
      in if endpointKey \<noteq> []
         then c\<lparr>endpointHeadersFormat := assignProperty (endpointHeadersFormat c) endpointKey format\<rparr>
         else c)"

text \<open>The endpoint key that \<open>prepareRequestOptions\<close> and \<open>handleRequestError\<close> compute from
  the \<open>url\<close> property of the options object.\<close>

definition optionsEndpointKey :: "request_options \<Rightarrow> string" where
  "optionsEndpointKey options =
     (if truthy (url options) then last (splitOn CHR ''/'' (the (url options))) else ''default'')"

definition prepareRequestOptions :: "http_client \<Rightarrow> request_options \<Rightarrow> request_options" where
  "prepareRequestOptions c options =
     (let endpointKey = optionsEndpointKey options;
          withFormat =
            (if endpointKey \<noteq> ''default'' \<and>
                truthyValue (getProperty (endpointHeadersFormat c) endpointKey)
             then options\<lparr>headersFormat := getProperty (endpointHeadersFormat c) endpointKey\<rparr>
             else if \<not> truthyValue (headersFormat options)
             then (if endpointKey = ''nonce''
                   then options\<lparr>headersFormat := Some (Text ''string'')\<rparr>
                   else options\<lparr>headersFormat := Some (Text (defaultHeadersFormat c))\<rparr>)
             else options)
      in if (timeout withFormat = None \<or> timeout withFormat = Some 0) \<and> optTimeout c \<noteq> 0
         then withFormat\<lparr>timeout := Some (optTimeout c)\<rparr>
         else withFormat)"

definition isHeadersFormatError :: "string \<Rightarrow> bool" where
  "isHeadersFormatError message =
     (message \<noteq> [] \<and>
      (js_includes message ''Unmarshal Error'' \<or>
       js_includes message ''cannot unmarshal object'' \<or>
       js_includes message ''headers of type string''))"

text \<open>\<open>handleRequestError\<close> returns the options to use and, as it writes the endpoint
  memory, the client.\<close>

definition handleRequestError ::
  "http_client \<Rightarrow> string \<Rightarrow> request_options \<Rightarrow> request_options \<times> http_client" where
  "handleRequestError c message options =
     (if isHeadersFormatError message then
        (let endpointKey = optionsEndpointKey options;
             newFormat = (if headersFormat options = Some (Text ''string'') then ''object''
                          else ''string'')
         in (options\<lparr>headersFormat := Some (Text newFormat)\<rparr>,
             c\<lparr>endpointHeadersFormat := assignProperty (endpointHeadersFormat c) endpointKey newFormat\<rparr>))
      else (options, c))"

record response =
  status :: nat
  body :: string

text \<open>
  What a request does, in order: \<open>Sent u headers ja3\<close> is one call of the transport
  with the headers in the form \<open>headers\<close> (\<open>object\<close> or \<open>string\<close>),
  \<open>Backoff w\<close> the \<open>delay(waitTime)\<close> before a retry (\<open>None\<close> when \<open>waitTime\<close> is \<open>NaN\<close>,
  the product with an absent \<open>retryDelay\<close>), \<open>NewFingerprint\<close> the fingerprint drawn for
  the retry.
\<close>

datatype http_event =
    Sent string string string
  | Backoff "nat option"
  | NewFingerprint string

text \<open>The headers of \<open>requestConfig\<close>: \<open>objectHeaders\<close> when the loop variable
  \<open>headersFormat\<close> is the string \<open>object\<close>, \<open>stringHeaders\<close> for every other value.\<close>

definition headersSent :: "js_value \<Rightarrow> string" where
  "headersSent format = (if format = Text ''object'' then ''object'' else ''string'')"

text \<open>\<open>retryCount < fixedOptions.maxRetries\<close>: a comparison with \<open>undefined\<close> is false.\<close>

definition js_less :: "nat \<Rightarrow> nat option \<Rightarrow> bool" where
  "js_less n bound = (case bound of None \<Rightarrow> False | Some b \<Rightarrow> n < b)"

text \<open>
  The \<open>while (true)\<close> loop of \<open>request\<close>. The transport is the call
  \<open>client(url, requestConfig, method)\<close>: given the number of the attempt, the URL, the
  form of the headers of \<open>requestConfig\<close> and the fingerprint, it returns the response or the
  message of the error it throws. \<open>rnd\<close> gives the random numbers of the fingerprint
  draws. The request body and the life cycle of the CycleTLS instance behind the
  transport are not modelled; the URL is the one \<open>request\<close> receives.
\<close>

function requestLoop ::
  "(nat \<Rightarrow> string \<Rightarrow> string \<Rightarrow> string \<Rightarrow> string + response) \<Rightarrow> (nat \<Rightarrow> nat) \<Rightarrow>
   string list \<Rightarrow> string list \<Rightarrow> request_options \<Rightarrow> string \<Rightarrow> js_value \<Rightarrow> nat \<Rightarrow>
   http_client \<Rightarrow> http_event list \<Rightarrow> (string + response) \<times> http_client \<times> http_event list" where
  "requestLoop transport rnd configured fallback requestOptions u format retryCount c trace =
     (case transport retryCount u (headersSent format) (ja3Fingerprint c) of
        Inr resp \<Rightarrow> (Inr resp, c, trace @ [Sent u (headersSent format) (ja3Fingerprint c)])
      | Inl message \<Rightarrow>
          (if js_less retryCount (maxRetries (fst (handleRequestError c message requestOptions)))
           then requestLoop transport rnd configured fallback requestOptions u format
                  (retryCount + 1)
                  ((snd (handleRequestError c message requestOptions))
                     \<lparr>ja3Fingerprint := getRandomJa3Fingerprint configured fallback (rnd retryCount)\<rparr>)
                  (trace @
                     [Sent u (headersSent format) (ja3Fingerprint c),
                      Backoff (map_option (\<lambda>d. d * 2 ^ ((retryCount + 1) - 1))
                                 (retryDelay (fst (handleRequestError c message requestOptions)))),
                      NewFingerprint (getRandomJa3Fingerprint configured fallback (rnd retryCount))])
           else (Inl message, snd (handleRequestError c message requestOptions),
                 trace @ [Sent u (headersSent format) (ja3Fingerprint c)])))"
  by pat_completeness auto
termination
  by (relation "measure (\<lambda>(transport, rnd, configured, fallback, requestOptions, u, format,
                           retryCount, c, trace).
                  (case maxRetries requestOptions of None \<Rightarrow> 0 | Some m \<Rightarrow> m) - retryCount)")
     (auto simp: js_less_def handleRequestError_def Let_def split: option.splits if_splits)

declare requestLoop.simps [simp del]

text \<open>\<open>request\<close>: the options are prepared, the rate limit is checked at time \<open>now\<close>, the
  headers format of the endpoint is read once, and the loop runs.\<close>

definition request ::
  "(string \<Rightarrow> string option) \<Rightarrow> (nat \<Rightarrow> string \<Rightarrow> string \<Rightarrow> string \<Rightarrow> string + response) \<Rightarrow>
   (nat \<Rightarrow> nat) \<Rightarrow> string list \<Rightarrow> string list \<Rightarrow> (nat \<Rightarrow> nat) \<Rightarrow> int \<Rightarrow>
   http_client \<Rightarrow> string \<Rightarrow> request_options \<Rightarrow>
   (string + response) \<times> http_client \<times> http_event list" where
  "request pathnameOf transport rnd configured fallback lag now c u options =
     (let requestOptions = prepareRequestOptions c options;
          admitted = checkRateLimit (optRateLimit c) lag 0 now (requestTimestamps c);
          c1 = c\<lparr>requestTimestamps := fst (snd admitted)\<rparr>;
          format = getHeadersFormatForEndpoint pathnameOf c1 u
      in requestLoop transport rnd configured fallback requestOptions u format 0 c1 [])"

definition attempts :: "http_event list \<Rightarrow> nat" where
  "attempts trace = length (filter (\<lambda>e. case e of Sent u f j \<Rightarrow> True | _ \<Rightarrow> False) trace)"

section \<open>Worker\<close>

text \<open>\<open>config.tasks.delayBetweenTasks\<close> is a number of milliseconds or \<open>true\<close>.\<close>

datatype delay_setting = DelayMs nat | DelayRandom

record task_config =
  maxConsecutiveErrors :: nat
  cooldownPeriod :: nat
  taskMaxRetries :: nat
  initialRetryDelay :: nat
  stopOnFailure :: bool
  delayBetweenTasks :: delay_setting
  sequence :: "string list"

text \<open>The object a task returns: \<open>fatalError\<close> is false when the property is absent.\<close>

record task_result =
  success :: bool
  fatalError :: bool
  resultError :: "string option"
  resultData :: "string option"

text \<open>What a method of the FractionAI handler does when called: it returns a result
  object, or throws an error with a message and the \<open>isCaptchaFatalError\<close> marker.\<close>

datatype handler_outcome = Returned task_result | Thrown string bool

text \<open>
  The log of a worker, kept by the model only: \<open>TaskAttempt t c\<close> is the dispatch of
  \<open>executeTask\<close> for task \<open>t\<close> made while the consecutive-error counter reads \<open>c\<close>; the
  other events are the calls of \<open>delay\<close>, by purpose.
\<close>

datatype worker_event =
    Stagger nat
  | TaskAttempt string nat
  | RetryDelay nat
  | PostBackoff nat
  | Cooldown nat
  | Pacing nat

text \<open>
  The world of a worker. Each consultation takes the current \<open>ticks\<close> of the worker and
  advances it: \<open>httpPost\<close> is the outcome of \<open>httpClient.post\<close> (the thrown message or
  \<open>response.data\<close>), \<open>handler name\<close> the outcome of the handler method \<open>name\<close>,
  \<open>messageText\<close> the text a task signs (it contains the time), \<open>rndPacing\<close> the value of
  \<open>Math.floor(Math.random() * 2000)\<close>.
\<close>

record worker_env =
  lib :: ethers_lib
  httpPost :: "nat \<Rightarrow> string + string"
  handler :: "string \<Rightarrow> nat \<Rightarrow> handler_outcome"
  messageText :: "nat \<Rightarrow> string"
  rndPacing :: "nat \<Rightarrow> nat"

record worker =
  ethSigner :: eth_signer
  initialDelay :: nat
  consecutiveErrors :: nat
  taskResults :: "(string \<times> bool) list"
  tasksCompleted :: nat
  tasksFailed :: nat
  totalRequests :: nat
  retries :: nat
  failedStatus :: bool
  ticks :: nat
  events :: "worker_event list"

definition Worker_new :: "ethers_lib \<Rightarrow> 'a account_scheme \<Rightarrow> nat \<Rightarrow> error + worker" where
  "Worker_new ethers acct randomDelay =
     (case EthSigner_new ethers (privateKey acct) of
        Inl e \<Rightarrow> Inl e
      | Inr signer \<Rightarrow>
          Inr \<lparr>ethSigner = signer, initialDelay = 1000 + randomDelay mod 4000,
               consecutiveErrors = 0, taskResults = [], tasksCompleted = 0, tasksFailed = 0,
               totalRequests = 0, retries = 0, failedStatus = False, ticks = 0, events = []\<rparr>)"

text \<open>
  A plain object as the list of its own properties, in the order in which JavaScript
  enumerates them: first the keys that are array indices, in ascending numeric order,
  then the other keys in the order in which they were first assigned. A key is an array
  index when it is the decimal numeral of a number below \<open>2^32 - 1\<close>, that is, when
  converting it to a number and back gives the key itself.
\<close>

definition isDigit :: "char \<Rightarrow> bool" where
  "isDigit c = (c \<in> set ''0123456789'')"

definition digitValue :: "char \<Rightarrow> nat" where
  "digitValue c = length (takeWhile (\<lambda>d. d \<noteq> c) ''0123456789'')"

definition numericValue :: "string \<Rightarrow> nat" where
  "numericValue key = foldl (\<lambda>n c. 10 * n + digitValue c) 0 key"

definition isArrayIndex :: "string \<Rightarrow> bool" where
  "isArrayIndex key =
     (key \<noteq> [] \<and> list_all isDigit key \<and> numericValue key < 4294967295 \<and>
      string_of_nat (numericValue key) = key)"

text \<open>Assignment to a key that is not an array index: the value of an existing property
  is replaced where it stands, a new property goes to the end.\<close>

fun setNamed :: "(string \<times> 'v) list \<Rightarrow> string \<Rightarrow> 'v \<Rightarrow> (string \<times> 'v) list" where
  "setNamed [] key v = [(key, v)]"
| "setNamed ((k, old) # rest) key v =
     (if k = key then (k, v) # rest else (k, old) # setNamed rest key v)"

text \<open>Assignment to an array index: a new property goes after the smaller indices and
  before the larger ones and the other keys.\<close>

fun setIndexed :: "(string \<times> 'v) list \<Rightarrow> string \<Rightarrow> 'v \<Rightarrow> (string \<times> 'v) list" where
  "setIndexed [] key v = [(key, v)]"
| "setIndexed ((k, old) # rest) key v =
     (if k = key then (k, v) # rest
      else if isArrayIndex k \<and> numericValue k < numericValue key
      then (k, old) # setIndexed rest key v
      else (key, v) # (k, old) # rest)"

text \<open>\<open>obj[key] = value\<close> for a value that is an object, as the results stored by the
  worker are: the key \<open>__proto__\<close> replaces the prototype of \<open>obj\<close> and gives it no
  property of its own.\<close>

definition setProperty :: "(string \<times> 'v) list \<Rightarrow> string \<Rightarrow> 'v \<Rightarrow> (string \<times> 'v) list" where
  "setProperty obj key v =
     (if key = ''__proto__'' then obj
      else if isArrayIndex key then setIndexed obj key v
      else setNamed obj key v)"

definition logEvent :: "worker_event \<Rightarrow> worker \<Rightarrow> worker" where
  "logEvent e w = w\<lparr>events := events w @ [e]\<rparr>"

definition tick :: "worker \<Rightarrow> worker" where
  "tick w = w\<lparr>ticks := ticks w + 1\<rparr>"

definition failedResult :: "string \<Rightarrow> task_result" where
  "failedResult message =
     \<lparr>success = False, fatalError = False, resultError = Some message, resultData = None\<rparr>"

text \<open>\<open>withErrorHandling\<close>: the task function returns its data or the message of the
  error it throws, with the worker as it left it.\<close>

definition withErrorHandling ::
  "task_config \<Rightarrow> (worker \<Rightarrow> (string + string) \<times> worker) \<Rightarrow> string \<Rightarrow> worker \<Rightarrow>
   task_result \<times> worker" where
  "withErrorHandling cfg taskFn taskName w =
     (case taskFn (w\<lparr>totalRequests := totalRequests w + 1\<rparr>) of
        (Inr result, w1) \<Rightarrow>
          (\<lparr>success = True, fatalError = False, resultError = None, resultData = Some result\<rparr>,
           w1\<lparr>consecutiveErrors := 0,
              tasksCompleted := tasksCompleted w1 + 1,
              taskResults := setProperty (taskResults w1) taskName True\<rparr>)
      | (Inl message, w1) \<Rightarrow>
          (let w2 = w1\<lparr>consecutiveErrors := consecutiveErrors w1 + 1,
                       tasksFailed := tasksFailed w1 + 1,
                       taskResults := setProperty (taskResults w1) taskName False\<rparr>;
               w3 = (if consecutiveErrors w2 \<ge> maxConsecutiveErrors cfg
                     then (logEvent (Cooldown (if cooldownPeriod cfg = 0 then 300000
                                               else cooldownPeriod cfg)) w2)
                            \<lparr>consecutiveErrors := 0\<rparr>
                     else w2)
           in (failedResult message, w3)))"

text \<open>The local check both task bodies make: sign the message, verify the signature.
  The messages of the errors thrown here, and the task names that \<open>sign\<close> and
  \<open>createEvent\<close> give to \<open>withErrorHandling\<close>, are Chinese strings in the source; they
  are written in English.\<close>

definition signAndVerify :: "worker_env \<Rightarrow> worker \<Rightarrow> string option \<times> worker" where
  "signAndVerify env w =
     (let message = messageText env (ticks w);
          signature = signMessage (lib env) (ethSigner w) message
      in case verifySignature (lib env) (ethSigner w) message signature of
           Inl e \<Rightarrow> (Some ''signature could not be verified'', tick w)
         | Inr isValid \<Rightarrow>
             (if \<not> isValid then (Some ''local signature verification failed'', tick w)
              else (None, tick w)))"

text \<open>The retry loop inside \<open>sign\<close>: \<open>maxRetries\<close> is the constant 3.\<close>

function signPostLoop ::
  "worker_env \<Rightarrow> nat \<Rightarrow> string option \<Rightarrow> worker \<Rightarrow> (string + string) \<times> worker" where
  "signPostLoop env retryCount lastError w =
     (if retryCount \<le> 3 then
        (case httpPost env (ticks w) of
           Inr result \<Rightarrow> (Inr result, tick w)
         | Inl message \<Rightarrow>
             signPostLoop env (retryCount + 1) (Some message)
               (if retryCount + 1 \<le> 3
                then logEvent (PostBackoff (2 ^ (retryCount + 1) * 1000))
                       ((tick w)\<lparr>retries := retries w + 1\<rparr>)
                else (tick w)\<lparr>retries := retries w + 1\<rparr>))
      else (Inl (case lastError of
                   Some message \<Rightarrow> message
                 | None \<Rightarrow> ''sign request failed, retries exhausted''), w))"
  by pat_completeness auto
termination
  by (relation "measure (\<lambda>(env, retryCount, lastError, w). 4 - retryCount)") auto

declare signPostLoop.simps [simp del]

definition signBody :: "worker_env \<Rightarrow> worker \<Rightarrow> (string + string) \<times> worker" where
  "signBody env w =
     (case signAndVerify env w of
        (Some message, w1) \<Rightarrow> (Inl message, w1)
      | (None, w1) \<Rightarrow> signPostLoop env 0 None w1)"

definition createEventBody :: "worker_env \<Rightarrow> worker \<Rightarrow> (string + string) \<times> worker" where
  "createEventBody env w =
     (case signAndVerify env w of
        (Some message, w1) \<Rightarrow> (Inl message, w1)
      | (None, w1) \<Rightarrow> (httpPost env (ticks w1), tick w1))"

definition sign :: "task_config \<Rightarrow> worker_env \<Rightarrow> worker \<Rightarrow> task_result \<times> worker" where
  "sign cfg env w = withErrorHandling cfg (signBody env) ''sign authorization'' w"

definition createEvent :: "task_config \<Rightarrow> worker_env \<Rightarrow> worker \<Rightarrow> task_result \<times> worker" where
  "createEvent cfg env w = withErrorHandling cfg (createEventBody env) ''create event'' w"

text \<open>The cases of the \<open>switch\<close> in \<open>handleFractionAITask\<close> that call the handler. The
  handler exists, as the constructor creates it, and its methods return an object.\<close>

definition handlerMethods :: "string list" where
  "handlerMethods =
     [''verify'', ''getUserAgents'', ''createAgent'', ''enableAutomatedMatchmaking'',
      ''disableAutomatedMatchmaking'', ''checkAutomationStatus'', ''getProfile'', ''getAgents'',
      ''createMatch'', ''joinMatch'', ''checkMatchStatus'', ''getMatchResult'', ''claimRewards'']"

definition handleFractionAITask :: "worker_env \<Rightarrow> string \<Rightarrow> worker \<Rightarrow> task_result \<times> worker" where
  "handleFractionAITask env taskType w =
     (if taskType \<in> set handlerMethods then
        (case handler env taskType (ticks w) of
           Returned result \<Rightarrow> (result, tick w)
         | Thrown message isCaptchaFatalError \<Rightarrow>
             (if isCaptchaFatalError
              then (\<lparr>success = False, fatalError = True, resultError = Some message,
                     resultData = None\<rparr>,
                    (tick w)\<lparr>failedStatus := True\<rparr>)
              else (failedResult message, tick w)))
      else (failedResult (''unknown FractionAI task type: '' @ taskType), w))"

text \<open>The cases of the \<open>switch\<close> in \<open>executeTask\<close> that go to \<open>handleFractionAITask\<close>, by the
  argument they pass.\<close>

definition fractionAICases :: "string list" where
  "fractionAICases =
     [''verify'', ''diagnoseApi'', ''getUserAgents'', ''checkAutomationStatus'', ''createAgent'',
      ''enableAutomatedMatchmaking'', ''disableAutomatedMatchmaking'', ''getProfile'',
      ''getAgents'', ''createMatch'', ''joinMatch'', ''checkMatchStatus'', ''getMatchResult'',
      ''claimRewards'']"

definition isFractionAICase :: "string \<Rightarrow> bool" where
  "isFractionAICase taskType =
     (startsWith taskType ''fractionAI:'' \<and> drop 11 taskType \<in> set fractionAICases)"

text \<open>The start of \<open>executeTask\<close>: the delay of a retry, then the dispatch. The
  parameter \<open>retryDelay\<close> of the source is written \<open>retryDelay'\<close>.\<close>

definition enterTask :: "string \<Rightarrow> nat \<Rightarrow> nat \<Rightarrow> worker \<Rightarrow> worker" where
  "enterTask taskType retryCount retryDelay' w =
     (let w1 = (if retryCount > 0 \<and> retryDelay' > 0 then logEvent (RetryDelay retryDelay') w else w)
      in logEvent (TaskAttempt taskType (consecutiveErrors w1)) w1)"

text \<open>The \<open>catch\<close> block of \<open>executeTask\<close> up to the retry decision, for an error without
  the fatal marker.\<close>

definition countError :: "task_config \<Rightarrow> worker \<Rightarrow> worker" where
  "countError cfg w =
     (let w1 = w\<lparr>consecutiveErrors := consecutiveErrors w + 1\<rparr>
      in if consecutiveErrors w1 \<ge> maxConsecutiveErrors cfg
         then (logEvent (Cooldown (cooldownPeriod cfg)) w1)\<lparr>consecutiveErrors := 0\<rparr>
         else w1)"

definition effectiveMaxRetries :: "task_config \<Rightarrow> nat" where
  "effectiveMaxRetries cfg = (if taskMaxRetries cfg = 0 then 3 else taskMaxRetries cfg)"

definition nextRetryDelay :: "task_config \<Rightarrow> nat \<Rightarrow> nat" where
  "nextRetryDelay cfg retryDelay' =
     (if retryDelay' = 0
      then (if initialRetryDelay cfg = 0 then 2000 else initialRetryDelay cfg)
      else retryDelay' * 2)"

text \<open>
  \<open>executeTask\<close>. Neither \<open>sign\<close>, \<open>createEvent\<close> nor \<open>handleFractionAITask\<close> throws (each
  catches every error of its body), so the \<open>catch\<close> block runs for the \<open>default\<close> case of
  the \<open>switch\<close> only, whose error carries no fatal marker.
\<close>

function executeTask ::
  "task_config \<Rightarrow> worker_env \<Rightarrow> string \<Rightarrow> nat \<Rightarrow> nat \<Rightarrow> worker \<Rightarrow> task_result \<times> worker" where
  "executeTask cfg env taskType retryCount retryDelay' w =
     (if taskType = ''sign'' then sign cfg env (enterTask taskType retryCount retryDelay' w)
      else if taskType = ''createEvent''
        then createEvent cfg env (enterTask taskType retryCount retryDelay' w)
      else if isFractionAICase taskType
        then handleFractionAITask env (drop 11 taskType)
               (enterTask taskType retryCount retryDelay' w)
      else if retryCount < effectiveMaxRetries cfg
        then executeTask cfg env taskType (retryCount + 1) (nextRetryDelay cfg retryDelay')
               (countError cfg (enterTask taskType retryCount retryDelay' w))
      else (failedResult (''unknown task type: '' @ taskType),
            countError cfg (enterTask taskType retryCount retryDelay' w)))"
  by pat_completeness auto
termination
  by (relation "measure (\<lambda>(cfg, env, taskType, retryCount, retryDelay', w).
                  effectiveMaxRetries cfg - retryCount)") auto

declare executeTask.simps [simp del]

text \<open>\<open>tasksToExecute.indexOf(taskType)\<close> for a task of the list.\<close>

definition indexOf :: "string list \<Rightarrow> string \<Rightarrow> nat" where
  "indexOf xs x = length (takeWhile (\<lambda>y. y \<noteq> x) xs)"

text \<open>The delay between two tasks, at the end of an iteration of the loop.\<close>

definition pace :: "task_config \<Rightarrow> worker_env \<Rightarrow> string list \<Rightarrow> string \<Rightarrow> worker \<Rightarrow> worker" where
  "pace cfg env tasksToExecute taskType w =
     (if delayBetweenTasks cfg \<noteq> DelayMs 0 \<and>
         int (indexOf tasksToExecute taskType) < int (length tasksToExecute) - 1
      then (case delayBetweenTasks cfg of
              DelayMs delayTime \<Rightarrow> logEvent (Pacing delayTime) w
            | DelayRandom \<Rightarrow> logEvent (Pacing (1000 + rndPacing env (ticks w) mod 2000)) (tick w))
      else w)"

text \<open>
  The \<open>for\<close> loop of \<open>executeAllTasks\<close> over the tasks still to run. It returns
  \<open>allTasksSuccessful\<close>, the object \<open>taskResults\<close>, the tasks for which \<open>executeTask\<close> was
  called (kept by the model only), and the worker.
\<close>

fun taskLoop ::
  "task_config \<Rightarrow> worker_env \<Rightarrow> string list \<Rightarrow> string list \<Rightarrow> (string \<times> task_result) list \<Rightarrow>
   string list \<Rightarrow> worker \<Rightarrow> bool \<times> (string \<times> task_result) list \<times> string list \<times> worker" where
  "taskLoop cfg env tasksToExecute [] results attempted w = (True, results, attempted, w)"
| "taskLoop cfg env tasksToExecute (taskType # rest) results attempted w =
     (if fatalError (fst (executeTask cfg env taskType 0 0 w))
      then (False, setProperty results taskType (fst (executeTask cfg env taskType 0 0 w)),
            attempted @ [taskType], snd (executeTask cfg env taskType 0 0 w))
      else if \<not> success (fst (executeTask cfg env taskType 0 0 w)) \<and> stopOnFailure cfg
      then (False, setProperty results taskType (fst (executeTask cfg env taskType 0 0 w)),
            attempted @ [taskType], snd (executeTask cfg env taskType 0 0 w))
      else taskLoop cfg env tasksToExecute rest
             (setProperty results taskType (fst (executeTask cfg env taskType 0 0 w)))
             (attempted @ [taskType])
             (pace cfg env tasksToExecute taskType (snd (executeTask cfg env taskType 0 0 w))))"

text \<open>\<open>executeAllTasks\<close>: the summary's \<open>success\<close> and \<open>tasks\<close>, the tasks attempted, and the
  worker with its metrics.\<close>

definition executeAllTasks ::
  "task_config \<Rightarrow> worker_env \<Rightarrow> worker \<Rightarrow>
   bool \<times> (string \<times> task_result) list \<times> string list \<times> worker" where
  "executeAllTasks cfg env w =
     taskLoop cfg env (sequence cfg) (sequence cfg) [] [] (logEvent (Stagger (initialDelay w)) w)"

section \<open>Predicates used in the statements\<close>

text \<open>Every task attempt in a log started while the counter was below \<open>m\<close>.\<close>

definition attemptsBelow :: "nat \<Rightarrow> worker_event list \<Rightarrow> bool" where
  "attemptsBelow m evs = list_all (\<lambda>e. case e of TaskAttempt t c \<Rightarrow> c < m | _ \<Rightarrow> True) evs"

text \<open>The names of a list, each at the place of its first occurrence.\<close>

definition firstOccurrences :: "string list \<Rightarrow> string list" where
  "firstOccurrences xs = rev (remdups (rev xs))"

text \<open>The names among the tasks attempted that are listed in order of first attempt:
  those that are neither array indices nor \<open>__proto__\<close>.\<close>

definition namedKeys :: "string list \<Rightarrow> string list" where
  "namedKeys attempted =
     filter (\<lambda>k. \<not> isArrayIndex k \<and> k \<noteq> ''__proto__'') (firstOccurrences attempted)"

text \<open>The keys of an object on which the names \<open>attempted\<close> were assigned in turn: the
  array indices among them in ascending order, then the other names, each once.\<close>

definition recordedKeys :: "string list \<Rightarrow> string list \<Rightarrow> bool" where
  "recordedKeys keys attempted =
     (\<exists>idx. keys = idx @ namedKeys attempted \<and>
            (\<forall>k \<in> set idx. isArrayIndex k) \<and>
            sorted_wrt (\<lambda>a b. numericValue a < numericValue b) idx \<and>
            set idx = {k \<in> set attempted. isArrayIndex k})"

text \<open>The task function that \<open>sign\<close> or \<open>createEvent\<close> passes to \<open>withErrorHandling\<close>.\<close>

definition taskBody :: "worker_env \<Rightarrow> string \<Rightarrow> worker \<Rightarrow> (string + string) \<times> worker" where
  "taskBody env taskType = (if taskType = ''sign'' then signBody env else createEventBody env)"

text \<open>The counter is below \<open>m\<close> and so it was at every task attempt of the log.\<close>

definition breakerInv :: "nat \<Rightarrow> worker \<Rightarrow> bool" where
  "breakerInv m w = (consecutiveErrors w < m \<and> attemptsBelow m (events w))"

text \<open>The object \<open>handleFractionAITask\<close> returns for an error with the fatal marker.\<close>

definition fatalResult :: "string \<Rightarrow> task_result" where
  "fatalResult message =
     \<lparr>success = False, fatalError = True, resultError = Some message, resultData = None\<rparr>"

section \<open>Sample inputs\<close>

text \<open>The concrete accounts, files, libraries, transports, configurations and workers at
  which the theorems below are instantiated and the code is evaluated.\<close>

definition sampleAccount :: "string \<Rightarrow> account" where
  "sampleAccount k = \<lparr>privateKey = k, accountAlias = ''Account 1'', address = None, proxy = None\<rparr>"

definition proxiedAccount :: account where
  "proxiedAccount =
     \<lparr>privateKey = ''0xa'', accountAlias = ''Account 1'', address = None,
      proxy = Some \<lparr>host = Some ''10.0.0.1'', port = Some ''8080'',
                    username = None, password = None\<rparr>\<rparr>"

definition proxiesDisabled :: network_config where
  "proxiesDisabled =
     \<lparr>useProxy = False, useDynamicProxy = False, proxyHost = None, proxyPort = None,
      proxyUsername = None, proxyPassword = None\<rparr>"

definition dynamicProxyConfig :: network_config where
  "dynamicProxyConfig =
     \<lparr>useProxy = True, useDynamicProxy = True, proxyHost = Some ''proxy.example'',
      proxyPort = Some ''1080'', proxyUsername = None, proxyPassword = None\<rparr>"

definition toyEthers :: ethers_lib where
  "toyEthers =
     \<lparr>computeAddress = (\<lambda>key. if length key = 4 then Some (''0xAB'' @ drop 2 key) else None),
      signWith = (\<lambda>key m. key @ m),
      verifyMessage = (\<lambda>m sig. if length sig = 4 + length m
                                then Some (''0xAB'' @ drop 2 (take 4 sig)) else None)\<rparr>"



definition workerClient :: http_client where
  "workerClient = HttpClient_new (Some 3) (Some 2000) (Some 20) (Some 30000) ''ja3-0''"

definition noOptions :: request_options where
  "noOptions = \<lparr>url = None, headersFormat = None, timeout = None, maxRetries = None,
                retryDelay = None\<rparr>"

definition alwaysFails :: "nat \<Rightarrow> string \<Rightarrow> string \<Rightarrow> string \<Rightarrow> string + response" where
  "alwaysFails n u format ja3 = Inl ''ECONNRESET''"

definition pathnameOfExample :: "string \<Rightarrow> string option" where
  "pathnameOfExample u = (if u = ''https://api.example.com/auth/X'' then Some ''/auth/X'' else None)"

definition rejectsObject :: "nat \<Rightarrow> string \<Rightarrow> string \<Rightarrow> string \<Rightarrow> string + response" where
  "rejectsObject n u format ja3 =
     (if format = ''string'' then Inr \<lparr>status = 200, body = ''ok''\<rparr>
      else Inl ''json: cannot unmarshal object into Go value'')"

definition retryOptions :: request_options where
  "retryOptions = \<lparr>url = None, headersFormat = None, timeout = None, maxRetries = Some 3,
                   retryDelay = Some 1000\<rparr>"

definition firstRequest :: "(string + response) \<times> http_client \<times> http_event list" where
  "firstRequest =
     request pathnameOfExample rejectsObject (\<lambda>k. k + 1) [] [''ja3-0'', ''ja3-1'', ''ja3-2'']
       (\<lambda>k. 0) 1000 workerClient ''https://api.example.com/auth/X'' retryOptions"

definition secondRequest :: "(string + response) \<times> http_client \<times> http_event list" where
  "secondRequest =
     request pathnameOfExample rejectsObject (\<lambda>k. k + 1) [] [''ja3-0'', ''ja3-1'', ''ja3-2'']
       (\<lambda>k. 0) 70000 (fst (snd firstRequest)) ''https://api.example.com/auth/X'' noOptions"

definition breakerConfig :: "string list \<Rightarrow> task_config" where
  "breakerConfig tasks =
     \<lparr>maxConsecutiveErrors = 2, cooldownPeriod = 10000, taskMaxRetries = 3,
      initialRetryDelay = 2000, stopOnFailure = False, delayBetweenTasks = DelayMs 2000,
      sequence = tasks\<rparr>"

definition failingWorld :: worker_env where
  "failingWorld =
     \<lparr>lib = toyEthers, httpPost = (\<lambda>k. Inl ''ETIMEDOUT''),
      handler = (\<lambda>name k. Thrown ''request failed'' False),
      messageText = (\<lambda>k. ''message''), rndPacing = (\<lambda>k. 0)\<rparr>"

definition freshWorker :: worker where
  "freshWorker =
     \<lparr>ethSigner = \<lparr>wallet = ''0x1f'', signerAddress = ''0xAB1f''\<rparr>, initialDelay = 1000,
      consecutiveErrors = 0, taskResults = [], tasksCompleted = 0, tasksFailed = 0,
      totalRequests = 0, retries = 0, failedStatus = False, ticks = 0, events = []\<rparr>"

definition successWorld :: worker_env where
  "successWorld =
     \<lparr>lib = toyEthers, httpPost = (\<lambda>k. Inr ''accepted''),
      handler = (\<lambda>name k. if name = ''createAgent'' then Thrown ''captcha recognition failed'' True
                           else Returned \<lparr>success = True, fatalError = False, resultError = None,
                                          resultData = Some ''done''\<rparr>),
      messageText = (\<lambda>k. ''message''), rndPacing = (\<lambda>k. 0)\<rparr>"

section \<open>Verified properties\<close>

subsection \<open>Worker threads created by the task manager\<close>

lemma spawnLoop_eq:
  "spawnLoop i threadCount accounts workers =
     workers @ map (\<lambda>j. \<lparr>workerId = j + 1, workerAccount = accounts ! j\<rparr>)
                   [i..<min threadCount (length accounts)]"
proof (induction i threadCount accounts workers rule: spawnLoop.induct)
  case (1 i threadCount accounts workers)
  show ?case
  proof (cases "i < threadCount \<and> i < length accounts")
    case True
    then have "[i..<min threadCount (length accounts)] =
               i # [i + 1..<min threadCount (length accounts)]"
      by (simp add: upt_conv_Cons)
    with True "1.IH" show ?thesis
      by (subst spawnLoop.simps) simp
  next
    case False
    then have "[i..<min threadCount (length accounts)] = []"
      by auto
    moreover from False
    have "spawnLoop i threadCount accounts workers = workers"
      by (subst spawnLoop.simps) auto
    ultimately show ?thesis
      by simp
  qed
qed

lemma map_nth_upt_take: "n \<le> length xs \<Longrightarrow> map (\<lambda>j. xs ! j) [0..<n] = take n xs"
  by (simp add: list_eq_iff_nth_eq)

lemma map_Suc_upt_from_zero: "map (\<lambda>j. j + 1) [0..<n] = [1..<Suc n]"
  by (induction n) auto

text \<open>
  C7. With a positive \<open>maxWorkers\<close>, \<open>start\<close> creates exactly
  \<open>min maxWorkers (length accounts)\<close> worker threads; thread \<open>i + 1\<close> is bound to
  \<open>accounts[i]\<close>, so the threads take the first accounts of the list in order and no
  account past the ceiling is given to a thread. An empty list makes \<open>start\<close> throw
  before any thread exists.
\<close>

theorem start_spawns_min_workers:
  assumes "0 < maxWorkers"
  shows "(accounts \<noteq> [] \<longrightarrow>
           (\<exists>ws. start False maxWorkers (Inr accounts) = Inr ws
              \<and> length ws = min maxWorkers (length accounts)
              \<and> map workerAccount ws = take (min maxWorkers (length accounts)) accounts
              \<and> map workerId ws = [1..<Suc (min maxWorkers (length accounts))]))
       \<and> (accounts = [] \<longrightarrow> start False maxWorkers (Inr accounts) = Inl NoValidAccounts)"
proof (intro conjI impI)
  assume ne: "accounts \<noteq> []"
  let ?n = "min maxWorkers (length accounts)"
  let ?ws = "map (\<lambda>j. \<lparr>workerId = j + 1, workerAccount = accounts ! j\<rparr>) [0..<?n]"
  have st: "start False maxWorkers (Inr accounts) = Inr ?ws"
    using assms ne by (simp add: start_def spawnLoop_eq Let_def)
  have acc: "map workerAccount ?ws = take ?n accounts"
    using map_nth_upt_take [of ?n accounts] by (simp add: comp_def)
  have ids: "map workerId ?ws = [1..<Suc ?n]"
    using map_Suc_upt_from_zero [of ?n] by (simp add: comp_def)
  have len: "length ?ws = ?n" by simp
  from st acc ids len
  show "\<exists>ws. start False maxWorkers (Inr accounts) = Inr ws
              \<and> length ws = min maxWorkers (length accounts)
              \<and> map workerAccount ws = take (min maxWorkers (length accounts)) accounts
              \<and> map workerId ws = [1..<Suc (min maxWorkers (length accounts))]"
    by blast
next
  assume "accounts = []"
  then show "start False maxWorkers (Inr accounts) = Inl NoValidAccounts"
    by (simp add: start_def)
qed

theorem start_spawns_min_workers_witness:
  "(0::nat) < 2 \<and>
   (\<exists>ws. start False 2 (Inr [sampleAccount ''0xa'', sampleAccount ''0xb'', sampleAccount ''0xc'']) = Inr ws
      \<and> length ws = 2
      \<and> map workerAccount ws = [sampleAccount ''0xa'', sampleAccount ''0xb'']
      \<and> map workerId ws = [1, 2])"
  using start_spawns_min_workers
          [of 2 "[sampleAccount ''0xa'', sampleAccount ''0xb'', sampleAccount ''0xc'']"]
  by (simp add: upt_rec eval_nat_numeral)

subsection \<open>Proxy assignment\<close>

text \<open>
  C8 as stated fails: when the manager has no dynamic proxy (proxies disabled or the
  dynamic proxy not configured), every account, also one with an explicit proxy host, has
  its proxy replaced by the empty proxy.
\<close>

theorem assignProxies_explicit_proxy_overwritten:
  "hasExplicitProxy proxiedAccount \<and>
   assignProxiesToAccounts proxiesDisabled (loadProxyConfig proxiesDisabled
       \<lparr>host = None, port = None, username = None, password = None\<rparr>) [proxiedAccount]
     = [proxiedAccount\<lparr>proxy := Some \<lparr>host = None, port = None, username = None, password = None\<rparr>\<rparr>] \<and>
   assignProxiesToAccounts proxiesDisabled (loadProxyConfig proxiesDisabled
       \<lparr>host = None, port = None, username = None, password = None\<rparr>) [proxiedAccount]
     \<noteq> [proxiedAccount]"
  by (simp add: hasExplicitProxy_def proxiedAccount_def proxiesDisabled_def truthy_def
        assignProxiesToAccounts_def getDynamicProxy_def loadProxyConfig_def)

text \<open>
  C8, amended. The assignment keeps the length of the list and, in every account, the
  private key, the alias, the address and every further field. When a dynamic proxy is
  available, an account with an explicit proxy host is returned unchanged and every other
  account receives the dynamic proxy; when none is available, every account receives the
  empty proxy.
\<close>

theorem assignProxies_frame:
  "length (assignProxiesToAccounts cfg dp accounts) = length accounts \<and>
   (\<forall>i < length accounts.
      privateKey (assignProxiesToAccounts cfg dp accounts ! i) = privateKey (accounts ! i) \<and>
      accountAlias (assignProxiesToAccounts cfg dp accounts ! i) = accountAlias (accounts ! i) \<and>
      address (assignProxiesToAccounts cfg dp accounts ! i) = address (accounts ! i) \<and>
      account.more (assignProxiesToAccounts cfg dp accounts ! i) = account.more (accounts ! i) \<and>
      (case getDynamicProxy cfg dp of
         Some p \<Rightarrow>
           (if hasExplicitProxy (accounts ! i)
            then assignProxiesToAccounts cfg dp accounts ! i = accounts ! i
            else proxy (assignProxiesToAccounts cfg dp accounts ! i) = Some p)
       | None \<Rightarrow>
           proxy (assignProxiesToAccounts cfg dp accounts ! i) =
             Some \<lparr>host = None, port = None, username = None, password = None\<rparr>))"
  by (cases "getDynamicProxy cfg dp") (simp_all add: assignProxiesToAccounts_def)

theorem assignProxies_frame_witness:
  "(0::nat) < length [proxiedAccount, sampleAccount ''0xb''] \<and>
   assignProxiesToAccounts dynamicProxyConfig
     (loadProxyConfig dynamicProxyConfig \<lparr>host = None, port = None, username = None, password = None\<rparr>)
     [proxiedAccount, sampleAccount ''0xb''] ! 0 = proxiedAccount"
  using assignProxies_frame
          [of dynamicProxyConfig
              "loadProxyConfig dynamicProxyConfig \<lparr>host = None, port = None, username = None, password = None\<rparr>"
              "[proxiedAccount, sampleAccount ''0xb'']"]
  by (simp add: hasExplicitProxy_def proxiedAccount_def dynamicProxyConfig_def truthy_def
        getDynamicProxy_def loadProxyConfig_def js_or_def assignProxiesToAccounts_def)

subsection \<open>Signing round trip\<close>

text \<open>
  C9. For a signer built from a key the constructor accepts, verifying a message with
  the signature the same signer produced for it returns true, for every message. The
  elliptic-curve operations are those of the ethers library; its contract is the first
  assumption: recovering the signer of a signature made with a key gives the address of
  the wallet of that key.
\<close>

theorem verifySignature_of_signMessage:
  assumes recovers: "\<forall>key a m. computeAddress ethers key = Some a \<longrightarrow>
                       verifyMessage ethers m (signWith ethers key m) = Some a"
    and signer: "EthSigner_new ethers key = Inr signer"
  shows "verifySignature ethers signer message (signMessage ethers signer message) = Inr True"
proof -
  from signer have w: "wallet signer = key"
    and a: "computeAddress ethers key = Some (signerAddress signer)"
    by (auto simp: EthSigner_new_def split: if_splits option.splits)
  from recovers a
  have "verifyMessage ethers message (signWith ethers key message) = Some (signerAddress signer)"
    by blast
  with w show ?thesis
    by (simp add: verifySignature_def signMessage_def)
qed

theorem verifySignature_of_signMessage_witness:
  "EthSigner_new toyEthers ''0x1f'' = Inr \<lparr>wallet = ''0x1f'', signerAddress = ''0xAB1f''\<rparr> \<and>
   verifySignature toyEthers \<lparr>wallet = ''0x1f'', signerAddress = ''0xAB1f''\<rparr> ''hello''
     (signMessage toyEthers \<lparr>wallet = ''0x1f'', signerAddress = ''0xAB1f''\<rparr> ''hello'') = Inr True"
proof -
  have c: "\<forall>key a m. computeAddress toyEthers key = Some a \<longrightarrow>
             verifyMessage toyEthers m (signWith toyEthers key m) = Some a"
    by (auto simp: toyEthers_def)
  have s: "EthSigner_new toyEthers ''0x1f'' = Inr \<lparr>wallet = ''0x1f'', signerAddress = ''0xAB1f''\<rparr>"
    by (simp add: EthSigner_new_def toyEthers_def startsWith_def)
  from verifySignature_of_signMessage [OF c s, of "''hello''"] s show ?thesis
    by simp
qed

subsection \<open>Loading accounts\<close>











subsection \<open>Rate limit\<close>

lemma retain_retain: "now \<le> later \<Longrightarrow> retain later (retain now ts) = retain later ts"
  unfolding retain_def by (induction ts) auto

lemma checkRateLimit_result:
  "0 < limit \<Longrightarrow> checkRateLimit limit lag k now ts = (returned, stored, waits) \<Longrightarrow>
     now \<le> returned \<and> stored = retain returned ts @ [returned] \<and>
     length (retain returned ts) < limit \<and>
     (limit \<le> length (retain now ts) \<longrightarrow>
        waits \<noteq> [] \<and> hd (retain now ts) + 60000 \<le> returned)"
proof (induction limit lag k now ts arbitrary: returned stored waits rule: checkRateLimit.induct)
  case (1 limit lag k now ts)
  show ?case
  proof (cases "limit \<le> length (retain now ts)")
    case False
    with "1.prems" show ?thesis
      by (auto simp add: checkRateLimit.simps [of limit lag k now ts])
  next
    case True
    let ?later = "now + waitTimeFor now (retain now ts) + int (lag k)"
    obtain r s w where rec: "checkRateLimit limit lag (k + 1) ?later (retain now ts) = (r, s, w)"
      by (cases "checkRateLimit limit lag (k + 1) ?later (retain now ts)") auto
    from "1.prems" True rec
    have res: "returned = r" "stored = s" "waits = waitTimeFor now (retain now ts) # w"
      by (simp_all add: checkRateLimit.simps [of limit lag k now ts])
    from "1.prems" True have "limit \<noteq> 0" by simp
    from "1.IH" [OF this True "1.prems"(1) rec]
    have ih: "?later \<le> r" "s = retain r (retain now ts) @ [r]"
         "length (retain r (retain now ts)) < limit"
      by simp_all
    have w1: "1 \<le> waitTimeFor now (retain now ts)"
         and w2: "hd (retain now ts) + 60000 - now \<le> waitTimeFor now (retain now ts)"
      by (simp_all add: waitTimeFor_def)
    from ih(1) w1 have le: "now \<le> r" by linarith
    from ih(1) w2 have aged: "hd (retain now ts) + 60000 \<le> r" by linarith
    from le ih res aged show ?thesis
      by (simp add: retain_retain)
  qed
qed

text \<open>
  C5, amended. With a limit \<open>R > 0\<close>: \<open>checkRateLimit\<close> returns at a time \<open>returned\<close>
  at which fewer than \<open>R\<close> of the earlier timestamps are less than 60 seconds old (the
  window is checked again after every wait), it stores exactly those timestamps followed
  by \<open>returned\<close>, so every timestamp at least 60 seconds old is discarded, and when \<open>R\<close>
  timestamps were inside the window at the call, it waited and one of them is at least
  60 seconds old when it returns.
\<close>

theorem checkRateLimit_waits_for_window:
  assumes "0 < limit"
    and "checkRateLimit limit lag k now ts = (returned, stored, waits)"
  shows "now \<le> returned \<and>
         stored = filter (\<lambda>t. returned - t < 60000) ts @ [returned] \<and>
         length (filter (\<lambda>t. returned - t < 60000) ts) < limit \<and>
         (limit \<le> length (filter (\<lambda>t. now - t < 60000) ts) \<longrightarrow>
            waits \<noteq> [] \<and>
            (\<exists>t \<in> set ts. now - t < 60000 \<and> 60000 \<le> returned - t))"
proof -
  note r = checkRateLimit_result [OF assms]
  have "limit \<le> length (retain now ts) \<Longrightarrow>
          \<exists>t \<in> set ts. now - t < 60000 \<and> 60000 \<le> returned - t"
  proof -
    assume full: "limit \<le> length (retain now ts)"
    with assms(1) have "retain now ts \<noteq> []" by auto
    then have "hd (retain now ts) \<in> set (retain now ts)" by simp
    then have "hd (retain now ts) \<in> set ts" and "now - hd (retain now ts) < 60000"
      by (simp_all add: retain_def)
    moreover from r full have "60000 \<le> returned - hd (retain now ts)" by simp
    ultimately show ?thesis by blast
  qed
  with r show ?thesis
    by (simp add: retain_def)
qed

theorem checkRateLimit_waits_for_window_witness:
  "(0::nat) < 2 \<and>
   checkRateLimit 2 (\<lambda>k. 5) 0 30000 [-40000, 1000, 20000] = (61005, [20000, 61005], [31000]) \<and>
   (2::nat) \<le> length (filter (\<lambda>t. 30000 - t < 60000) [-40000, 1000, 20000 :: int]) \<and>
   (60000::int) \<le> 61005 - 1000"
proof -
  have e: "checkRateLimit 2 (\<lambda>k. 5) 0 30000 [-40000, 1000, 20000] = (61005, [20000, 61005], [31000])"
    by (simp add: checkRateLimit.simps retain_def waitTimeFor_def)
  from checkRateLimit_waits_for_window [OF _ e] show ?thesis
    using e by simp
qed

text \<open>
  C5 as stated fails at the boundary: with limit 1 and one timestamp 10 ms old, the call
  returns when that timestamp is exactly 60000 ms old, not more.
\<close>

theorem checkRateLimit_admits_at_exactly_60s:
  "checkRateLimit 1 (\<lambda>k. 0) 0 10 [0] = (60000, [60000], [59990]) \<and>
   fst (checkRateLimit 1 (\<lambda>k. 0) 0 10 [0]) - 0 = 60000 \<and>
   \<not> (60000 < fst (checkRateLimit 1 (\<lambda>k. 0) 0 10 [0]) - 0)"
  by (simp add: checkRateLimit.simps retain_def waitTimeFor_def)

subsection \<open>Requests of the HTTP client\<close>

lemma handleRequestError_keeps_maxRetries:
  "maxRetries (fst (handleRequestError c message options)) = maxRetries options"
  by (simp add: handleRequestError_def Let_def)

lemma requestLoop_without_maxRetries:
  assumes "maxRetries requestOptions = None"
  shows "requestLoop transport rnd configured fallback requestOptions u format retryCount c trace =
     (case transport retryCount u (headersSent format) (ja3Fingerprint c) of
        Inr resp \<Rightarrow> (Inr resp, c, trace @ [Sent u (headersSent format) (ja3Fingerprint c)])
      | Inl message \<Rightarrow> (Inl message, snd (handleRequestError c message requestOptions),
                        trace @ [Sent u (headersSent format) (ja3Fingerprint c)]))"
  using assms
  by (subst requestLoop.simps)
     (simp add: js_less_def handleRequestError_keeps_maxRetries split: sum.splits)

lemma prepareRequestOptions_keeps_maxRetries:
  "maxRetries (prepareRequestOptions c options) = maxRetries options"
  by (simp add: prepareRequestOptions_def Let_def)

text \<open>
  C1. The retry loop of \<open>request\<close> compares \<open>retryCount\<close> with the \<open>maxRetries\<close> of the
  per-call options object, never with the \<open>maxRetries\<close> of the client. For a client
  constructed with \<open>maxRetries = 3\<close>, as the worker constructs it, and a call that passes
  no options, as every caller in the repository does, a transport that fails every time is
  called once and the error is thrown: there is no retry, no wait and no new fingerprint.
\<close>

theorem request_ignores_client_maxRetries:
  "optMaxRetries workerClient = 3 \<and>
   fst (request pathnameOfExample alwaysFails (\<lambda>k. k) [] [''ja3-0'', ''ja3-1'', ''ja3-2''] (\<lambda>k. 0) 1000
          workerClient ''https://api.example.com/auth/X'' noOptions) = Inl ''ECONNRESET'' \<and>
   snd (snd (request pathnameOfExample alwaysFails (\<lambda>k. k) [] [''ja3-0'', ''ja3-1'', ''ja3-2''] (\<lambda>k. 0) 1000
          workerClient ''https://api.example.com/auth/X'' noOptions))
     = [Sent ''https://api.example.com/auth/X'' ''object'' ''ja3-0''] \<and>
   attempts (snd (snd (request pathnameOfExample alwaysFails (\<lambda>k. k) [] [''ja3-0'', ''ja3-1'', ''ja3-2''] (\<lambda>k. 0) 1000
          workerClient ''https://api.example.com/auth/X'' noOptions))) = 1"
  by (simp add: request_def requestLoop_without_maxRetries prepareRequestOptions_keeps_maxRetries
        noOptions_def workerClient_def HttpClient_new_def alwaysFails_def attempts_def
        getHeadersFormatForEndpoint_def getEndpointKey_def pathnameOfExample_def
        getProperty_def objectPrototypeKeys_def truthyValue_def headersSent_def Let_def)

lemma request_single_attempt:
  assumes "maxRetries options = None"
    and "\<And>format ja3. transport 0 u format ja3 = Inl message"
  shows "fst (request pathnameOf transport rnd configured fallback lag now c u options) = Inl message
       \<and> attempts (snd (snd (request pathnameOf transport rnd configured fallback lag now c u options))) = 1"
  using assms
  by (simp add: request_def requestLoop_without_maxRetries prepareRequestOptions_keeps_maxRetries
        attempts_def Let_def)

text \<open>The retries exist for a call that carries \<open>maxRetries\<close> in its own options: a
  transport that fails every time is then called \<open>maxRetries + 1\<close> times.\<close>

lemma attempts_append: "attempts (xs @ ys) = attempts xs + attempts ys"
  by (simp add: attempts_def)

lemma requestLoop_persistent_failure:
  "(\<forall>n f j. \<exists>message. transport n u f j = Inl message) \<Longrightarrow>
   maxRetries requestOptions = Some m \<Longrightarrow> retryCount \<le> m \<Longrightarrow>
     attempts (snd (snd (requestLoop transport rnd configured fallback requestOptions u format
                           retryCount c trace)))
       = attempts trace + (m - retryCount) + 1 \<and>
     isl (fst (requestLoop transport rnd configured fallback requestOptions u format
                 retryCount c trace))"
proof (induction transport rnd configured fallback requestOptions u format retryCount c trace
         rule: requestLoop.induct)
  case (1 transport rnd configured fallback requestOptions u format retryCount c trace)
  from "1.prems"(1) obtain message
    where tm: "transport retryCount u (headersSent format) (ja3Fingerprint c) = Inl message"
    by blast
  have bound: "js_less retryCount (maxRetries (fst (handleRequestError c message requestOptions)))
                 = (retryCount < m)"
    by (simp add: js_less_def handleRequestError_keeps_maxRetries "1.prems"(2))
  have sent: "attempts [Sent u (headersSent format) (ja3Fingerprint c)] = 1"
    and others: "\<And>w j. attempts [Sent u (headersSent format) (ja3Fingerprint c), Backoff w, NewFingerprint j] = 1"
    by (simp_all add: attempts_def)
  show ?case
  proof (cases "retryCount < m")
    case True
    then have le: "retryCount + 1 \<le> m" by simp
    from True bound
    have b: "js_less retryCount (maxRetries (fst (handleRequestError c message requestOptions)))"
      by simp
    note ih = "1.IH" [OF tm b "1.prems"(1) "1.prems"(2) le]
    from True ih show ?thesis
      by (subst (1 2) requestLoop.simps) (simp add: tm b others attempts_append)
  next
    case False
    with bound
    have nb: "\<not> js_less retryCount (maxRetries (fst (handleRequestError c message requestOptions)))"
      by simp
    from False have z: "m - retryCount = 0" by simp
    show ?thesis
      by (subst (1 2) requestLoop.simps) (simp add: tm nb sent z attempts_append)
  qed
qed

lemma request_with_call_maxRetries:
  assumes "\<forall>n f j. \<exists>message. transport n u f j = Inl message"
    and "maxRetries options = Some m"
  shows "attempts (snd (snd (request pathnameOf transport rnd configured fallback lag now c u options)))
           = m + 1 \<and>
         isl (fst (request pathnameOf transport rnd configured fallback lag now c u options))"
proof -
  have a0: "attempts [] = 0" by (simp add: attempts_def)
  from assms(2) have p: "maxRetries (prepareRequestOptions c options) = Some m"
    by (simp add: prepareRequestOptions_keeps_maxRetries)
  from requestLoop_persistent_failure
         [where transport = transport and u = u and retryCount = 0 and trace = "[]",
          OF assms(1) p] a0
  show ?thesis
    by (simp add: request_def Let_def)
qed

lemma rejection_is_format_error:
  "isHeadersFormatError ''json: cannot unmarshal object into Go value''"
  by (simp add: isHeadersFormatError_def startsWith_def)

lemma firstRequest_value:
  "fst firstRequest = Inl ''json: cannot unmarshal object into Go value'' \<and>
   snd (snd firstRequest) =
     [Sent ''https://api.example.com/auth/X'' ''object'' ''ja3-0'',
      Backoff (Some 1000), NewFingerprint ''ja3-1'',
      Sent ''https://api.example.com/auth/X'' ''object'' ''ja3-1'',
      Backoff (Some 2000), NewFingerprint ''ja3-2'',
      Sent ''https://api.example.com/auth/X'' ''object'' ''ja3-2'',
      Backoff (Some 4000), NewFingerprint ''ja3-0'',
      Sent ''https://api.example.com/auth/X'' ''object'' ''ja3-0''] \<and>
   endpointHeadersFormat (fst (snd firstRequest)) ''X'' = None \<and>
   endpointHeadersFormat (fst (snd firstRequest)) ''default'' = Some ''string'' \<and>
   defaultHeadersFormat (fst (snd firstRequest)) = ''object'' \<and>
   ja3Fingerprint (fst (snd firstRequest)) = ''ja3-0'' \<and>
   optRateLimit (fst (snd firstRequest)) = 20 \<and>
   requestTimestamps (fst (snd firstRequest)) = [1000]"
  by (simp add: firstRequest_def request_def requestLoop.simps prepareRequestOptions_def
        handleRequestError_def rejection_is_format_error js_less_def
        optionsEndpointKey_def retryOptions_def workerClient_def HttpClient_new_def
        rejectsObject_def getHeadersFormatForEndpoint_def getEndpointKey_def
        pathnameOfExample_def getRandomJa3Fingerprint_def truthy_def Let_def
        getProperty_def objectPrototypeKeys_def truthyValue_def headersSent_def
        assignProperty_def
        checkRateLimit.simps retain_def)

text \<open>
  C2. An endpoint rejects the structured (\<open>object\<close>) headers with an unmarshal error and
  accepts the flattened (\<open>string\<close>) ones. Even when the call passes \<open>maxRetries = 3\<close>,
  the first request sends \<open>object\<close> headers in all four attempts, waits the back-off
  before each retry and fails: \<open>handleRequestError\<close> changes a copy of the options and the
  memory, but the loop keeps the format it read before the loop. The memory is written
  under the key \<open>default\<close>, not under the endpoint key \<open>X\<close> that the next request looks
  up, so the second request sends \<open>object\<close> headers again and fails as well.
\<close>

theorem encoding_flip_never_reaches_the_retry:
  "fst firstRequest = Inl ''json: cannot unmarshal object into Go value'' \<and>
   snd (snd firstRequest) =
     [Sent ''https://api.example.com/auth/X'' ''object'' ''ja3-0'',
      Backoff (Some 1000), NewFingerprint ''ja3-1'',
      Sent ''https://api.example.com/auth/X'' ''object'' ''ja3-1'',
      Backoff (Some 2000), NewFingerprint ''ja3-2'',
      Sent ''https://api.example.com/auth/X'' ''object'' ''ja3-2'',
      Backoff (Some 4000), NewFingerprint ''ja3-0'',
      Sent ''https://api.example.com/auth/X'' ''object'' ''ja3-0''] \<and>
   endpointHeadersFormat (fst (snd firstRequest)) ''X'' = None \<and>
   endpointHeadersFormat (fst (snd firstRequest)) ''default'' = Some ''string'' \<and>
   fst secondRequest = Inl ''json: cannot unmarshal object into Go value'' \<and>
   snd (snd secondRequest) = [Sent ''https://api.example.com/auth/X'' ''object'' ''ja3-0'']"
proof -
  note f = firstRequest_value
  have "fst secondRequest = Inl ''json: cannot unmarshal object into Go value'' \<and>
        snd (snd secondRequest) = [Sent ''https://api.example.com/auth/X'' ''object'' ''ja3-0'']"
    using f
    by (simp add: secondRequest_def request_def requestLoop_without_maxRetries
          prepareRequestOptions_keeps_maxRetries noOptions_def rejectsObject_def
          getHeadersFormatForEndpoint_def getEndpointKey_def pathnameOfExample_def
          getProperty_def objectPrototypeKeys_def truthyValue_def headersSent_def
          truthy_def Let_def)
  with f show ?thesis by simp
qed

subsection \<open>The consecutive-error counter of a worker\<close>

lemma attemptsBelow_append [simp]:
  "attemptsBelow m (xs @ ys) = (attemptsBelow m xs \<and> attemptsBelow m ys)"
  by (simp add: attemptsBelow_def)

lemma attemptsBelow_single:
  "attemptsBelow m [e] = (case e of TaskAttempt t c \<Rightarrow> c < m | _ \<Rightarrow> True)"
  by (simp add: attemptsBelow_def)

lemma signPostLoop_frame:
  "consecutiveErrors (snd (signPostLoop env retryCount lastError w)) = consecutiveErrors w \<and>
   attemptsBelow m (events (snd (signPostLoop env retryCount lastError w))) = attemptsBelow m (events w)"
proof (induction env retryCount lastError w rule: signPostLoop.induct)
  case (1 env retryCount lastError w)
  show ?case
  proof (cases "retryCount \<le> 3")
    case False
    then show ?thesis by (subst (1 2) signPostLoop.simps) simp
  next
    case True
    show ?thesis
    proof (cases "httpPost env (ticks w)")
      case (Inr result)
      with True show ?thesis
        by (subst (1 2) signPostLoop.simps) (simp add: tick_def)
    next
      case (Inl message)
      with True "1.IH" [OF True Inl] show ?thesis
        by (subst (1 2) signPostLoop.simps)
           (simp add: tick_def logEvent_def attemptsBelow_single)
    qed
  qed
qed

lemma signAndVerify_frame:
  "consecutiveErrors (snd (signAndVerify env w)) = consecutiveErrors w \<and>
   events (snd (signAndVerify env w)) = events w"
  by (simp add: signAndVerify_def tick_def Let_def split: sum.splits)

lemma signBody_frame:
  "consecutiveErrors (snd (signBody env w)) = consecutiveErrors w \<and>
   attemptsBelow m (events (snd (signBody env w))) = attemptsBelow m (events w)"
proof (cases "signAndVerify env w")
  case (Pair r w1)
  with signAndVerify_frame [of env w]
  have f: "consecutiveErrors w1 = consecutiveErrors w" "events w1 = events w" by simp_all
  show ?thesis
  proof (cases r)
    case None
    with Pair f signPostLoop_frame [of env 0 None w1 m] show ?thesis
      by (simp add: signBody_def)
  next
    case (Some message)
    with Pair f show ?thesis by (simp add: signBody_def)
  qed
qed

lemma createEventBody_frame:
  "consecutiveErrors (snd (createEventBody env w)) = consecutiveErrors w \<and>
   attemptsBelow m (events (snd (createEventBody env w))) = attemptsBelow m (events w)"
proof (cases "signAndVerify env w")
  case (Pair r w1)
  with signAndVerify_frame [of env w]
  have f: "consecutiveErrors w1 = consecutiveErrors w" "events w1 = events w" by simp_all
  with Pair show ?thesis
    by (cases r) (simp_all add: createEventBody_def tick_def)
qed

lemma withErrorHandling_inv:
  assumes "0 < maxConsecutiveErrors cfg"
    and "\<And>v. attemptsBelow (maxConsecutiveErrors cfg) (events (snd (taskFn v)))
               = attemptsBelow (maxConsecutiveErrors cfg) (events v)"
    and "attemptsBelow (maxConsecutiveErrors cfg) (events w)"
  shows "breakerInv (maxConsecutiveErrors cfg) (snd (withErrorHandling cfg taskFn taskName w))"
proof (cases "taskFn (w\<lparr>totalRequests := totalRequests w + 1\<rparr>)")
  case (Pair r w1)
  from assms(2) [of "w\<lparr>totalRequests := totalRequests w + 1\<rparr>"] assms(3) Pair
  have e: "attemptsBelow (maxConsecutiveErrors cfg) (events w1)" by simp
  show ?thesis
  proof (cases r)
    case (Inr result)
    with Pair e assms(1) show ?thesis
      by (simp add: withErrorHandling_def breakerInv_def)
  next
    case (Inl message)
    with Pair e assms(1) show ?thesis
      by (simp add: withErrorHandling_def breakerInv_def Let_def logEvent_def
            attemptsBelow_single)
  qed
qed

lemma handleFractionAITask_frame:
  "consecutiveErrors (snd (handleFractionAITask env taskType w)) = consecutiveErrors w \<and>
   events (snd (handleFractionAITask env taskType w)) = events w"
  by (simp add: handleFractionAITask_def tick_def split: handler_outcome.splits)

lemma enterTask_inv:
  "breakerInv m w \<Longrightarrow> breakerInv m (enterTask taskType retryCount d w)"
  by (simp add: enterTask_def breakerInv_def logEvent_def Let_def attemptsBelow_single)

lemma countError_inv:
  "0 < maxConsecutiveErrors cfg \<Longrightarrow> attemptsBelow (maxConsecutiveErrors cfg) (events w) \<Longrightarrow>
     breakerInv (maxConsecutiveErrors cfg) (countError cfg w)"
  by (simp add: countError_def breakerInv_def logEvent_def Let_def attemptsBelow_single)

lemma executeTask_inv:
  "0 < maxConsecutiveErrors cfg \<Longrightarrow> breakerInv (maxConsecutiveErrors cfg) w \<Longrightarrow>
     breakerInv (maxConsecutiveErrors cfg) (snd (executeTask cfg env taskType retryCount d w))"
proof (induction cfg env taskType retryCount d w rule: executeTask.induct)
  case (1 cfg env taskType retryCount d w)
  let ?m = "maxConsecutiveErrors cfg"
  let ?w = "enterTask taskType retryCount d w"
  from "1.prems" have entered: "breakerInv ?m ?w" by (simp add: enterTask_inv)
  then have ev: "attemptsBelow ?m (events ?w)" by (simp add: breakerInv_def)
  consider (sign) "taskType = ''sign''"
    | (create) "taskType \<noteq> ''sign''" "taskType = ''createEvent''"
    | (fraction) "taskType \<noteq> ''sign''" "taskType \<noteq> ''createEvent''" "isFractionAICase taskType"
    | (retry) "taskType \<noteq> ''sign''" "taskType \<noteq> ''createEvent''" "\<not> isFractionAICase taskType"
        "retryCount < effectiveMaxRetries cfg"
    | (giveup) "taskType \<noteq> ''sign''" "taskType \<noteq> ''createEvent''" "\<not> isFractionAICase taskType"
        "\<not> retryCount < effectiveMaxRetries cfg"
    by blast
  then show ?case
  proof cases
    case sign
    have "breakerInv ?m (snd (sign cfg env ?w))"
      unfolding sign_def
      by (rule withErrorHandling_inv [OF "1.prems"(1) _ ev]) (simp add: signBody_frame)
    with sign show ?thesis by (subst executeTask.simps) simp
  next
    case create
    have "breakerInv ?m (snd (createEvent cfg env ?w))"
      unfolding createEvent_def
      by (rule withErrorHandling_inv [OF "1.prems"(1) _ ev]) (simp add: createEventBody_frame)
    with create show ?thesis by (subst executeTask.simps) simp
  next
    case fraction
    with entered show ?thesis
      by (subst executeTask.simps) (simp add: breakerInv_def handleFractionAITask_frame)
  next
    case retry
    have "breakerInv ?m (countError cfg ?w)"
      by (rule countError_inv [OF "1.prems"(1) ev])
    from "1.IH" [OF retry(1) retry(2) retry(3) retry(4) "1.prems"(1) this] retry
    show ?thesis by (subst executeTask.simps) simp
  next
    case giveup
    have "breakerInv ?m (countError cfg ?w)"
      by (rule countError_inv [OF "1.prems"(1) ev])
    with giveup show ?thesis by (subst executeTask.simps) simp
  qed
qed

lemma pace_inv: "breakerInv m w \<Longrightarrow> breakerInv m (pace cfg env allTasks taskType w)"
  by (simp add: pace_def breakerInv_def logEvent_def tick_def attemptsBelow_single
        split: delay_setting.splits)

lemma taskLoop_inv:
  "0 < maxConsecutiveErrors cfg \<Longrightarrow> breakerInv (maxConsecutiveErrors cfg) w \<Longrightarrow>
     breakerInv (maxConsecutiveErrors cfg)
       (snd (snd (snd (taskLoop cfg env allTasks rest results attempted w))))"
proof (induction rest arbitrary: results attempted w)
  case Nil
  then show ?case by simp
next
  case (Cons taskType rest)
  from Cons.prems have one: "breakerInv (maxConsecutiveErrors cfg)
                               (snd (executeTask cfg env taskType 0 0 w))"
    by (rule executeTask_inv)
  then have "breakerInv (maxConsecutiveErrors cfg)
               (pace cfg env allTasks taskType (snd (executeTask cfg env taskType 0 0 w)))"
    by (rule pace_inv)
  from Cons.IH [OF Cons.prems(1) this] one show ?case
    by simp
qed

lemma executeAllTasks_inv:
  "0 < maxConsecutiveErrors cfg \<Longrightarrow> breakerInv (maxConsecutiveErrors cfg) w \<Longrightarrow>
     breakerInv (maxConsecutiveErrors cfg) (snd (snd (snd (executeAllTasks cfg env w))))"
  unfolding executeAllTasks_def
  by (rule taskLoop_inv) (simp_all add: breakerInv_def logEvent_def attemptsBelow_single)

lemma withErrorHandling_step:
  assumes "taskFn (w\<lparr>totalRequests := totalRequests w + 1\<rparr>) = (outcome, w1)"
    and "consecutiveErrors w1 = consecutiveErrors w"
  shows "case outcome of
           Inr result \<Rightarrow>
             success (fst (withErrorHandling cfg taskFn taskName w)) \<and>
             consecutiveErrors (snd (withErrorHandling cfg taskFn taskName w)) = 0 \<and>
             events (snd (withErrorHandling cfg taskFn taskName w)) = events w1
         | Inl message \<Rightarrow>
             \<not> success (fst (withErrorHandling cfg taskFn taskName w)) \<and>
             (if consecutiveErrors w + 1 < maxConsecutiveErrors cfg
              then consecutiveErrors (snd (withErrorHandling cfg taskFn taskName w))
                     = consecutiveErrors w + 1 \<and>
                   events (snd (withErrorHandling cfg taskFn taskName w)) = events w1
              else consecutiveErrors (snd (withErrorHandling cfg taskFn taskName w)) = 0 \<and>
                   events (snd (withErrorHandling cfg taskFn taskName w))
                     = events w1 @ [Cooldown (if cooldownPeriod cfg = 0 then 300000
                                              else cooldownPeriod cfg)])"
  using assms
  by (cases outcome)
     (auto simp: withErrorHandling_def Let_def logEvent_def failedResult_def)

lemma taskBody_counter:
  "consecutiveErrors (snd (taskBody env taskType v)) = consecutiveErrors v"
  by (simp add: taskBody_def signBody_frame createEventBody_frame)

lemma executeTask_body:
  assumes "taskType = ''sign'' \<or> taskType = ''createEvent''"
  shows "executeTask cfg env taskType 0 0 w =
           withErrorHandling cfg (taskBody env taskType)
             (if taskType = ''sign'' then ''sign authorization'' else ''create event'')
             (enterTask taskType 0 0 w)"
  using assms
  by (subst executeTask.simps) (auto simp: sign_def createEvent_def taskBody_def)

lemma enterTask_first:
  "enterTask taskType 0 0 w = logEvent (TaskAttempt taskType (consecutiveErrors w)) w"
  by (simp add: enterTask_def)

text \<open>
  The breaker where the code implements it. Let the threshold \<open>maxConsecutiveErrors\<close> be
  positive and the worker start below it. Then in every run of the task sequence every
  task attempt starts while the counter is below the threshold, and the run ends with
  the counter below it. For a \<open>sign\<close> or \<open>createEvent\<close> task, whose body has done its
  own retries when it throws: success sets the counter to 0; a failure adds one to it; and
  when that makes the counter reach the threshold, the worker sleeps the cooldown
  (\<open>cooldownPeriod\<close>, or 300000 ms when that is 0) at once and the counter reads 0 after it.
\<close>

lemma circuit_breaker:
  assumes "0 < maxConsecutiveErrors cfg"
    and "consecutiveErrors w < maxConsecutiveErrors cfg"
    and "attemptsBelow (maxConsecutiveErrors cfg) (events w)"
  shows "attemptsBelow (maxConsecutiveErrors cfg)
           (events (snd (snd (snd (executeAllTasks cfg env w))))) \<and>
         consecutiveErrors (snd (snd (snd (executeAllTasks cfg env w)))) < maxConsecutiveErrors cfg \<and>
         cooldownPeriod cfg \<le> (if cooldownPeriod cfg = 0 then 300000 else cooldownPeriod cfg) \<and>
         (\<forall>taskType outcome w1.
            (taskType = ''sign'' \<or> taskType = ''createEvent'') \<and>
            taskBody env taskType
              ((logEvent (TaskAttempt taskType (consecutiveErrors w)) w)
                 \<lparr>totalRequests := totalRequests w + 1\<rparr>) = (outcome, w1) \<longrightarrow>
            (case outcome of
               Inr result \<Rightarrow>
                 success (fst (executeTask cfg env taskType 0 0 w)) \<and>
                 consecutiveErrors (snd (executeTask cfg env taskType 0 0 w)) = 0 \<and>
                 events (snd (executeTask cfg env taskType 0 0 w)) = events w1
             | Inl message \<Rightarrow>
                 \<not> success (fst (executeTask cfg env taskType 0 0 w)) \<and>
                 (if consecutiveErrors w + 1 < maxConsecutiveErrors cfg
                  then consecutiveErrors (snd (executeTask cfg env taskType 0 0 w))
                         = consecutiveErrors w + 1 \<and>
                       events (snd (executeTask cfg env taskType 0 0 w)) = events w1
                  else consecutiveErrors (snd (executeTask cfg env taskType 0 0 w)) = 0 \<and>
                       events (snd (executeTask cfg env taskType 0 0 w))
                         = events w1 @ [Cooldown (if cooldownPeriod cfg = 0 then 300000
                                                  else cooldownPeriod cfg)])))"
proof (intro conjI allI impI)
  from assms have "breakerInv (maxConsecutiveErrors cfg) w"
    by (simp add: breakerInv_def)
  from executeAllTasks_inv [OF assms(1) this, of env]
  show "attemptsBelow (maxConsecutiveErrors cfg)
          (events (snd (snd (snd (executeAllTasks cfg env w)))))"
    and "consecutiveErrors (snd (snd (snd (executeAllTasks cfg env w)))) < maxConsecutiveErrors cfg"
    by (simp_all add: breakerInv_def)
next
  show "cooldownPeriod cfg \<le> (if cooldownPeriod cfg = 0 then 300000 else cooldownPeriod cfg)"
    by simp
next
  fix taskType outcome w1
  assume a: "(taskType = ''sign'' \<or> taskType = ''createEvent'') \<and>
            taskBody env taskType
              ((logEvent (TaskAttempt taskType (consecutiveErrors w)) w)
                 \<lparr>totalRequests := totalRequests w + 1\<rparr>) = (outcome, w1)"
  let ?w = "enterTask taskType 0 0 w"
  have tr: "totalRequests ?w = totalRequests w" and ce: "consecutiveErrors ?w = consecutiveErrors w"
    by (simp_all add: enterTask_first logEvent_def)
  from a have body: "taskBody env taskType (?w\<lparr>totalRequests := totalRequests ?w + 1\<rparr>) = (outcome, w1)"
    by (simp add: enterTask_first tr [unfolded enterTask_first])
  from taskBody_counter [of env taskType "?w\<lparr>totalRequests := totalRequests ?w + 1\<rparr>"] body ce
  have keep: "consecutiveErrors w1 = consecutiveErrors ?w" by simp
  from a have ex: "executeTask cfg env taskType 0 0 w =
           withErrorHandling cfg (taskBody env taskType)
             (if taskType = ''sign'' then ''sign authorization'' else ''create event'') ?w"
    by (simp add: executeTask_body)
  from withErrorHandling_step
         [where taskFn = "taskBody env taskType" and w = ?w and cfg = cfg
            and taskName = "if taskType = ''sign'' then ''sign authorization'' else ''create event''",
          OF body keep]
  show "case outcome of
               Inr result \<Rightarrow>
                 success (fst (executeTask cfg env taskType 0 0 w)) \<and>
                 consecutiveErrors (snd (executeTask cfg env taskType 0 0 w)) = 0 \<and>
                 events (snd (executeTask cfg env taskType 0 0 w)) = events w1
             | Inl message \<Rightarrow>
                 \<not> success (fst (executeTask cfg env taskType 0 0 w)) \<and>
                 (if consecutiveErrors w + 1 < maxConsecutiveErrors cfg
                  then consecutiveErrors (snd (executeTask cfg env taskType 0 0 w))
                         = consecutiveErrors w + 1 \<and>
                       events (snd (executeTask cfg env taskType 0 0 w)) = events w1
                  else consecutiveErrors (snd (executeTask cfg env taskType 0 0 w)) = 0 \<and>
                       events (snd (executeTask cfg env taskType 0 0 w))
                         = events w1 @ [Cooldown (if cooldownPeriod cfg = 0 then 300000
                                                  else cooldownPeriod cfg)])"
    unfolding ex ce by simp
qed

text \<open>The \<open>catch\<close> block of \<open>executeTask\<close>, which only an unknown task type reaches,
  counts each failed attempt and sleeps \<open>cooldownPeriod\<close> when the counter reaches the
  threshold.\<close>

lemma countError_step:
  "if consecutiveErrors v + 1 < maxConsecutiveErrors cfg
   then consecutiveErrors (countError cfg v) = consecutiveErrors v + 1 \<and>
        events (countError cfg v) = events v
   else consecutiveErrors (countError cfg v) = 0 \<and>
        events (countError cfg v) = events v @ [Cooldown (cooldownPeriod cfg)]"
  by (simp add: countError_def logEvent_def Let_def)

lemma executeTask_unknown_type_last_attempt:
  assumes "taskType \<noteq> ''sign''" and "taskType \<noteq> ''createEvent''"
    and "\<not> isFractionAICase taskType" and "\<not> retryCount < effectiveMaxRetries cfg"
  shows "executeTask cfg env taskType retryCount d w =
           (failedResult (''unknown task type: '' @ taskType),
            countError cfg (enterTask taskType retryCount d w))"
  using assms by (subst executeTask.simps) simp

lemma executeTask_unknown_type_retry:
  assumes "taskType \<noteq> ''sign''" and "taskType \<noteq> ''createEvent''"
    and "\<not> isFractionAICase taskType" and "retryCount < effectiveMaxRetries cfg"
  shows "executeTask cfg env taskType retryCount d w =
           executeTask cfg env taskType (retryCount + 1) (nextRetryDelay cfg d)
             (countError cfg (enterTask taskType retryCount d w))"
  using assms by (subst executeTask.simps) simp

lemmas worker_eval =
  executeAllTasks_def executeTask.simps sign_def createEvent_def withErrorHandling_def
  signBody_def createEventBody_def signAndVerify_def signPostLoop.simps signMessage_def
  verifySignature_def toLowerCase_def handleFractionAITask_def handlerMethods_def
  isFractionAICase_def fractionAICases_def startsWith_def enterTask_def countError_def
  effectiveMaxRetries_def nextRetryDelay_def pace_def indexOf_def logEvent_def tick_def
  failedResult_def breakerConfig_def failingWorld_def freshWorker_def toyEthers_def Let_def
  setProperty_def isArrayIndex_def isDigit_def

lemma failing_sign_createEvent_run:
  "events (snd (snd (snd (executeAllTasks (breakerConfig [''sign'', ''createEvent''])
                            failingWorld freshWorker)))) =
     [Stagger 1000, TaskAttempt ''sign'' 0, PostBackoff 2000, PostBackoff 4000,
      PostBackoff 8000, Pacing 2000, TaskAttempt ''createEvent'' 1, Cooldown 10000]"
  by (simp add: worker_eval)

text \<open>
  C3. The claim asks for a cooldown, and a counter at 0 after it, once
  \<open>maxConsecutiveErrors\<close> tasks in a row have failed. With the threshold 2, two
  FractionAI tasks in a row fail (their handlers throw), and the worker neither counts
  the failures (both attempts start with the counter at 0) nor sleeps a cooldown:
  \<open>handleFractionAITask\<close> catches every error of the handler and returns a result, so the
  \<open>catch\<close> block of \<open>executeTask\<close>, which counts and sleeps, never runs for these tasks.
  The same two failures of \<open>sign\<close> and \<open>createEvent\<close> end with the cooldown.
\<close>

theorem fractionAI_failures_never_cool_down:
  "maxConsecutiveErrors (breakerConfig [''fractionAI:verify'', ''fractionAI:getProfile'']) = 2 \<and>
   executeAllTasks (breakerConfig [''fractionAI:verify'', ''fractionAI:getProfile''])
       failingWorld freshWorker =
     (True,
      [(''fractionAI:verify'', failedResult ''request failed''),
       (''fractionAI:getProfile'', failedResult ''request failed'')],
      [''fractionAI:verify'', ''fractionAI:getProfile''],
      freshWorker\<lparr>ticks := 2,
                  events := [Stagger 1000, TaskAttempt ''fractionAI:verify'' 0, Pacing 2000,
                             TaskAttempt ''fractionAI:getProfile'' 0]\<rparr>) \<and>
   events (snd (snd (snd (executeAllTasks (breakerConfig [''sign'', ''createEvent''])
                            failingWorld freshWorker)))) =
     [Stagger 1000, TaskAttempt ''sign'' 0, PostBackoff 2000, PostBackoff 4000,
      PostBackoff 8000, Pacing 2000, TaskAttempt ''createEvent'' 1, Cooldown 10000]"
  using failing_sign_createEvent_run by (simp add: worker_eval)

lemma circuit_breaker_sample_run:
  "0 < maxConsecutiveErrors (breakerConfig [''sign'', ''createEvent'']) \<and>
   consecutiveErrors freshWorker < maxConsecutiveErrors (breakerConfig [''sign'', ''createEvent'']) \<and>
   attemptsBelow (maxConsecutiveErrors (breakerConfig [''sign'', ''createEvent''])) (events freshWorker) \<and>
   consecutiveErrors (snd (snd (snd (executeAllTasks (breakerConfig [''sign'', ''createEvent''])
                                       failingWorld freshWorker)))) < 2 \<and>
   events (snd (snd (snd (executeAllTasks (breakerConfig [''sign'', ''createEvent''])
                            failingWorld freshWorker)))) =
     [Stagger 1000, TaskAttempt ''sign'' 0, PostBackoff 2000, PostBackoff 4000,
      PostBackoff 8000, Pacing 2000, TaskAttempt ''createEvent'' 1, Cooldown 10000]"
proof -
  have h1: "0 < maxConsecutiveErrors (breakerConfig [''sign'', ''createEvent''])"
    by (simp add: breakerConfig_def)
  have h2: "consecutiveErrors freshWorker < maxConsecutiveErrors (breakerConfig [''sign'', ''createEvent''])"
    by (simp add: breakerConfig_def freshWorker_def)
  have h3: "attemptsBelow (maxConsecutiveErrors (breakerConfig [''sign'', ''createEvent'']))
              (events freshWorker)"
    by (simp add: attemptsBelow_def freshWorker_def)
  have m: "maxConsecutiveErrors (breakerConfig [''sign'', ''createEvent'']) = 2"
    by (simp add: breakerConfig_def)
  from circuit_breaker [OF h1 h2 h3, of failingWorld]
  have "consecutiveErrors (snd (snd (snd (executeAllTasks (breakerConfig [''sign'', ''createEvent''])
                                       failingWorld freshWorker)))) < 2"
    unfolding m by blast
  with h1 h2 h3 failing_sign_createEvent_run show ?thesis
    by blast
qed

subsection \<open>The results recorded by a run\<close>

lemma proto_not_index: "\<not> isArrayIndex ''__proto__''"
  by (simp add: isArrayIndex_def isDigit_def)

text \<open>The keys of a plain object: array indices come first in ascending order, the other
  names follow in the order of their first assignment, and \<open>__proto__\<close> adds none.\<close>

lemma numericValue_samples:
  "numericValue ''0'' = 0" "numericValue ''1'' = 1" "numericValue ''01'' = 1"
  by (simp_all add: numericValue_def digitValue_def)

lemma string_of_nat_samples: "string_of_nat 0 = ''0''" "string_of_nat 1 = ''1''"
  by (subst string_of_nat.simps, simp)+

lemma arrayIndex_samples:
  "isArrayIndex ''0''" "isArrayIndex ''1''" "\<not> isArrayIndex ''sign''" "\<not> isArrayIndex ''01''"
  unfolding isArrayIndex_def numericValue_samples string_of_nat_samples
  by (simp_all add: isDigit_def)

lemma setProperty_key_order:
  "map fst (setProperty (setProperty (setProperty (setProperty [] ''sign'' a) ''1'' b)
                           ''__proto__'' c) ''0'' d)
     = [''0'', ''1'', ''sign'']"
  by (simp add: setProperty_def arrayIndex_samples numericValue_samples)

lemma arrayIndex_inj:
  "isArrayIndex a \<Longrightarrow> isArrayIndex b \<Longrightarrow> numericValue a = numericValue b \<Longrightarrow> a = b"
  by (metis isArrayIndex_def)

lemma setNamed_keys:
  "map fst (setNamed ps k v) = (if k \<in> set (map fst ps) then map fst ps else map fst ps @ [k])"
  by (induction ps k v rule: setNamed.induct) auto

lemma map_of_setNamed: "map_of (setNamed ps k v) k = Some v"
  by (induction ps k v rule: setNamed.induct) auto

lemma map_of_setIndexed: "map_of (setIndexed ps k v) k = Some v"
  by (induction ps k v rule: setIndexed.induct) auto

lemma map_of_setProperty: "k \<noteq> ''__proto__'' \<Longrightarrow> map_of (setProperty ps k v) k = Some v"
  by (simp add: setProperty_def map_of_setNamed map_of_setIndexed)

lemma setIndexed_keys_subset:
  "set (map fst (setIndexed ps k v)) = insert k (set (map fst ps))"
  by (induction ps k v rule: setIndexed.induct) auto

lemma setNamed_keys_set:
  "set (map fst (setNamed ps k v)) = insert k (set (map fst ps))"
  by (induction ps k v rule: setNamed.induct) auto

lemma setProperty_keys_subset:
  "set (map fst (setProperty ps k v)) \<subseteq> insert k (set (map fst ps))"
  unfolding setProperty_def
  by (simp only: setIndexed_keys_subset setNamed_keys_set split: if_split) blast

lemma strict_sorted_distinct:
  "sorted_wrt (\<lambda>a b. f a < (f b :: nat)) xs \<Longrightarrow> distinct xs"
  by (induction xs) auto

lemma setIndexed_sorted:
  assumes "isArrayIndex key"
    and "\<forall>p \<in> set ns. \<not> isArrayIndex (fst p)"
  shows "\<forall>p \<in> set is. isArrayIndex (fst p) \<Longrightarrow>
         sorted_wrt (\<lambda>a b. numericValue a < numericValue b) (map fst is) \<Longrightarrow>
         \<exists>is'. setIndexed (is @ ns) key v = is' @ ns \<and>
               (\<forall>p \<in> set is'. isArrayIndex (fst p)) \<and>
               sorted_wrt (\<lambda>a b. numericValue a < numericValue b) (map fst is') \<and>
               set (map fst is') = insert key (set (map fst is))"
proof (induction "is")
  case Nil
  show ?case
  proof (cases ns)
    case Nil
    with assms(1) show ?thesis by (intro exI [of _ "[(key, v)]"]) simp
  next
    case (Cons p rest)
    obtain k old where p: "p = (k, old)" by (cases p)
    with Cons assms(2) have nk: "\<not> isArrayIndex k" by simp
    with assms(1) have "k \<noteq> key" by auto
    with Cons p nk assms(1) show ?thesis
      by (intro exI [of _ "[(key, v)]"]) simp
  qed
next
  case (Cons p is0)
  obtain k old where p: "p = (k, old)" by (cases p)
  from Cons.prems p have ik: "isArrayIndex k"
    and rest: "\<forall>q \<in> set is0. isArrayIndex (fst q)"
    and above: "\<forall>x \<in> set (map fst is0). numericValue k < numericValue x"
    and sorted0: "sorted_wrt (\<lambda>a b. numericValue a < numericValue b) (map fst is0)"
    by auto
  show ?case
  proof (cases "k = key")
    case True
    with p Cons.prems show ?thesis
      by (intro exI [of _ "(k, v) # is0"]) auto
  next
    case False
    show ?thesis
    proof (cases "numericValue k < numericValue key")
      case True
      from Cons.IH [OF rest sorted0]
      obtain is1 where is1: "setIndexed (is0 @ ns) key v = is1 @ ns"
        "\<forall>q \<in> set is1. isArrayIndex (fst q)"
        "sorted_wrt (\<lambda>a b. numericValue a < numericValue b) (map fst is1)"
        "set (map fst is1) = insert key (set (map fst is0))"
        by blast
      from is1(4) above True
      have "\<forall>x \<in> set (map fst is1). numericValue k < numericValue x" by auto
      with is1 p False True ik show ?thesis
        by (intro exI [of _ "(k, old) # is1"]) auto
    next
      case notless: False
      with False ik assms(1) have lt: "numericValue key < numericValue k"
        using arrayIndex_inj [of k key] by (meson linorder_neqE_nat)
      with above have "\<forall>x \<in> set (map fst is0). numericValue key < numericValue x"
        by auto
      with p False notless lt ik rest sorted0 above assms(1) show ?thesis
        by (intro exI [of _ "(key, v) # (k, old) # is0"]) auto
    qed
  qed
qed


lemma firstOccurrences_snoc:
  "firstOccurrences (xs @ [k]) = (if k \<in> set xs then firstOccurrences xs else firstOccurrences xs @ [k])"
  by (simp add: firstOccurrences_def)

lemma set_firstOccurrences [simp]: "set (firstOccurrences xs) = set xs"
  by (simp add: firstOccurrences_def)

lemma distinct_firstOccurrences [simp]: "distinct (firstOccurrences xs)"
  by (simp add: firstOccurrences_def)

lemma firstOccurrences_distinct: "distinct xs \<Longrightarrow> firstOccurrences xs = xs"
  by (simp add: firstOccurrences_def distinct_remdups_id)

lemma namedKeys_snoc:
  "namedKeys (xs @ [k]) =
     (if isArrayIndex k \<or> k = ''__proto__'' \<or> k \<in> set xs then namedKeys xs
      else namedKeys xs @ [k])"
  by (simp add: namedKeys_def firstOccurrences_snoc)

lemma set_namedKeys:
  "set (namedKeys xs) = {k \<in> set xs. \<not> isArrayIndex k \<and> k \<noteq> ''__proto__''}"
  by (auto simp: namedKeys_def)

lemma recordedKeys_empty: "recordedKeys [] []"
  by (simp add: recordedKeys_def namedKeys_def firstOccurrences_def)

lemma setProperty_recordedKeys:
  assumes "recordedKeys (map fst ps) attempted"
  shows "recordedKeys (map fst (setProperty ps key v)) (attempted @ [key])"
proof -
  from assms obtain idx where idx: "map fst ps = idx @ namedKeys attempted"
    "\<forall>k \<in> set idx. isArrayIndex k"
    "sorted_wrt (\<lambda>a b. numericValue a < numericValue b) idx"
    "set idx = {k \<in> set attempted. isArrayIndex k}"
    by (auto simp: recordedKeys_def)
  consider (proto) "key = ''__proto__''"
    | (index) "key \<noteq> ''__proto__''" "isArrayIndex key"
    | (named) "key \<noteq> ''__proto__''" "\<not> isArrayIndex key"
    by blast
  then show ?thesis
  proof cases
    case proto
    with idx proto_not_index show ?thesis
      unfolding recordedKeys_def
      by (intro exI [of _ idx]) (auto simp: setProperty_def namedKeys_snoc)
  next
    case index
    let ?is = "take (length idx) ps" and ?ns = "drop (length idx) ps"
    have split: "ps = ?is @ ?ns" by simp
    have mi: "map fst ?is = idx" and mn: "map fst ?ns = namedKeys attempted"
      using idx(1) by (simp_all add: take_map [symmetric] drop_map [symmetric])
    have a1: "\<forall>p \<in> set ?ns. \<not> isArrayIndex (fst p)"
    proof
      fix p assume "p \<in> set ?ns"
      then have "fst p \<in> set (map fst ?ns)" by force
      with mn show "\<not> isArrayIndex (fst p)" by (simp add: set_namedKeys)
    qed
    have a2: "\<forall>p \<in> set ?is. isArrayIndex (fst p)"
    proof
      fix p assume "p \<in> set ?is"
      then have "fst p \<in> set (map fst ?is)" by force
      with mi idx(2) show "isArrayIndex (fst p)" by simp
    qed
    have a3: "sorted_wrt (\<lambda>a b. numericValue a < numericValue b) (map fst ?is)"
      using mi idx(3) by simp
    from setIndexed_sorted [OF index(2) a1 a2 a3, of v]
    obtain is' where is': "setIndexed (?is @ ?ns) key v = is' @ ?ns"
      "\<forall>p \<in> set is'. isArrayIndex (fst p)"
      "sorted_wrt (\<lambda>a b. numericValue a < numericValue b) (map fst is')"
      "set (map fst is') = insert key (set (map fst ?is))"
      by blast
    have keys: "map fst (setProperty ps key v) = map fst is' @ namedKeys attempted"
      using index is'(1) mn split by (simp add: setProperty_def)
    have all: "\<forall>k \<in> set (map fst is'). isArrayIndex k"
      using is'(2) by auto
    have st: "set (map fst is') = {k \<in> set (attempted @ [key]). isArrayIndex k}"
      using is'(4) mi idx(4) index(2) by auto
    from keys all is'(3) st index show ?thesis
      unfolding recordedKeys_def
      by (intro exI [of _ "map fst is'"]) (simp add: namedKeys_snoc)
  next
    case named
    have notidx: "key \<notin> set idx" using idx(2) named(2) by auto
    have mem: "key \<in> set (map fst ps) \<longleftrightarrow> key \<in> set attempted"
      using idx(1) notidx named by (simp add: set_namedKeys)
    have keys: "map fst (setProperty ps key v) =
                  idx @ (if key \<in> set attempted then namedKeys attempted
                         else namedKeys attempted @ [key])"
      using named idx(1) mem by (simp add: setProperty_def setNamed_keys)
    from keys idx named show ?thesis
      unfolding recordedKeys_def
      by (intro exI [of _ idx]) (auto simp: namedKeys_snoc)
  qed
qed

lemma recordedKeys_facts:
  assumes "recordedKeys keys attempted"
  shows "distinct keys"
    and "set keys = set attempted - {''__proto__''}"
    and "keys = filter isArrayIndex keys @ namedKeys attempted"
    and "sorted_wrt (\<lambda>a b. numericValue a < numericValue b) (filter isArrayIndex keys)"
    and "length keys \<le> length attempted"
proof -
  from assms obtain idx where idx: "keys = idx @ namedKeys attempted"
    "\<forall>k \<in> set idx. isArrayIndex k"
    "sorted_wrt (\<lambda>a b. numericValue a < numericValue b) idx"
    "set idx = {k \<in> set attempted. isArrayIndex k}"
    by (auto simp: recordedKeys_def)
  have f1: "filter isArrayIndex idx = idx" using idx(2) by simp
  have f2: "filter isArrayIndex (namedKeys attempted) = []"
    by (auto simp: namedKeys_def filter_empty_conv)
  have fk: "filter isArrayIndex keys = idx" by (simp add: idx(1) f1 f2)
  show d: "distinct keys"
    using idx(2) strict_sorted_distinct [OF idx(3)]
    by (auto simp: idx(1) namedKeys_def)
  show s: "set keys = set attempted - {''__proto__''}"
    using idx(4) proto_not_index by (auto simp: idx(1) set_namedKeys)
  show "keys = filter isArrayIndex keys @ namedKeys attempted"
    by (subst fk) (rule idx(1))
  show "sorted_wrt (\<lambda>a b. numericValue a < numericValue b) (filter isArrayIndex keys)"
    by (subst fk) (rule idx(3))
  have "length keys = card (set keys)" using d by (simp add: distinct_card)
  also have "\<dots> \<le> card (set attempted)" using s by (simp add: card_mono)
  also have "\<dots> \<le> length attempted" by (rule card_length)
  finally show "length keys \<le> length attempted" .
qed

text \<open>What the loop returns: a prefix of the remaining tasks was attempted, all of them
  when the loop was not left early; the keys of the results are those of an object built
  from the tasks attempted; a loop left early recorded a fatal result, or a failure under
  \<open>stopOnFailure\<close>, for the last task attempted, unless that task is \<open>__proto__\<close>.\<close>

lemma taskLoop_shape:
  "taskLoop cfg env allTasks rest results attempted w = (ok, results', attempted', w') \<Longrightarrow>
   recordedKeys (map fst results) attempted \<Longrightarrow>
     (\<exists>k \<le> length rest. attempted' = attempted @ take k rest \<and> (ok \<longrightarrow> k = length rest) \<and>
        (\<not> ok \<longrightarrow> 0 < k \<and>
           (rest ! (k - 1) \<noteq> ''__proto__'' \<longrightarrow>
             (\<exists>r. map_of results' (rest ! (k - 1)) = Some r \<and>
                  (fatalError r \<or> \<not> success r \<and> stopOnFailure cfg))))) \<and>
     recordedKeys (map fst results') attempted'"
proof (induction rest arbitrary: results attempted w)
  case Nil
  then show ?case by auto
next
  case (Cons taskType rest)
  let ?r = "fst (executeTask cfg env taskType 0 0 w)"
  let ?w = "snd (executeTask cfg env taskType 0 0 w)"
  have keys: "recordedKeys (map fst (setProperty results taskType ?r)) (attempted @ [taskType])"
    using Cons.prems(2) by (rule setProperty_recordedKeys)
  show ?case
  proof (cases "fatalError ?r \<or> \<not> success ?r \<and> stopOnFailure cfg")
    case True
    with Cons.prems(1)
    have res: "ok = False" "results' = setProperty results taskType ?r"
      "attempted' = attempted @ [taskType]"
      by (auto split: if_splits)
    have "taskType \<noteq> ''__proto__'' \<longrightarrow> map_of results' taskType = Some ?r"
      by (simp add: res map_of_setProperty)
    with True res keys show ?thesis
      by (intro conjI exI [of _ 1]) auto
  next
    case False
    with Cons.prems(1)
    have rec: "taskLoop cfg env allTasks rest (setProperty results taskType ?r)
                 (attempted @ [taskType]) (pace cfg env allTasks taskType ?w)
               = (ok, results', attempted', w')"
      by (auto split: if_splits)
    from Cons.IH [OF rec keys]
    obtain k where k: "k \<le> length rest" "attempted' = (attempted @ [taskType]) @ take k rest"
      "ok \<longrightarrow> k = length rest"
      "\<not> ok \<longrightarrow> 0 < k \<and> (rest ! (k - 1) \<noteq> ''__proto__'' \<longrightarrow>
           (\<exists>r. map_of results' (rest ! (k - 1)) = Some r \<and>
                (fatalError r \<or> \<not> success r \<and> stopOnFailure cfg)))"
      and keys': "recordedKeys (map fst results') attempted'"
      by blast
    from k have "Suc k \<le> length (taskType # rest)"
      and "attempted' = attempted @ take (Suc k) (taskType # rest)"
      and "ok \<longrightarrow> Suc k = length (taskType # rest)"
      and "\<not> ok \<longrightarrow> 0 < Suc k \<and> ((taskType # rest) ! (Suc k - 1) \<noteq> ''__proto__'' \<longrightarrow>
             (\<exists>r. map_of results' ((taskType # rest) ! (Suc k - 1)) = Some r \<and>
                (fatalError r \<or> \<not> success r \<and> stopOnFailure cfg)))"
      by auto
    with keys' show ?thesis by blast
  qed
qed

text \<open>
  C4, amended. The tasks attempted are a prefix of the sequence, the whole sequence
  unless the run was left early, and then the last task attempted, unless it is named
  \<open>__proto__\<close>, has a fatal result or failed under \<open>stopOnFailure\<close>. The result object
  has exactly one entry per distinct name among the tasks attempted other than
  \<open>__proto__\<close>, which records nothing: first the names that are array indices, in
  ascending numeric order, then the other names in the order in which they were first
  attempted. So it never has more entries than tasks attempted, nor than the sequence is
  long, and when the names of the sequence are distinct and none is an array index or
  \<open>__proto__\<close>, it has exactly one entry per task attempted, in sequence order.
\<close>

theorem executeAllTasks_results:
  assumes "executeAllTasks cfg env w = (ok, results, attempted, w')"
  shows "(\<exists>k \<le> length (sequence cfg).
            attempted = take k (sequence cfg) \<and> (ok \<longrightarrow> k = length (sequence cfg)) \<and>
            (\<not> ok \<longrightarrow> 0 < k \<and>
               (sequence cfg ! (k - 1) \<noteq> ''__proto__'' \<longrightarrow>
                  (\<exists>r. map_of results (sequence cfg ! (k - 1)) = Some r \<and>
                       (fatalError r \<or> \<not> success r \<and> stopOnFailure cfg))))) \<and>
         distinct (map fst results) \<and>
         set (map fst results) = set attempted - {''__proto__''} \<and>
         map fst results =
           filter isArrayIndex (map fst results) @
           filter (\<lambda>k. \<not> isArrayIndex k \<and> k \<noteq> ''__proto__'') (firstOccurrences attempted) \<and>
         sorted_wrt (\<lambda>a b. numericValue a < numericValue b)
           (filter isArrayIndex (map fst results)) \<and>
         length results \<le> length attempted \<and>
         length attempted \<le> length (sequence cfg) \<and>
         (distinct (sequence cfg) \<and>
          (\<forall>t \<in> set (sequence cfg). \<not> isArrayIndex t \<and> t \<noteq> ''__proto__'') \<longrightarrow>
            map fst results = attempted \<and> length results = length attempted)"
proof -
  from assms
  have run: "taskLoop cfg env (sequence cfg) (sequence cfg) [] []
               (logEvent (Stagger (initialDelay w)) w) = (ok, results, attempted, w')"
    by (simp add: executeAllTasks_def)
  have start: "recordedKeys (map fst ([] :: (string \<times> task_result) list)) []"
    by (simp add: recordedKeys_empty)
  from taskLoop_shape [OF run start, unfolded append_Nil]
  obtain k where k: "k \<le> length (sequence cfg)" "attempted = take k (sequence cfg)"
      "ok \<longrightarrow> k = length (sequence cfg)"
      "\<not> ok \<longrightarrow> 0 < k \<and> (sequence cfg ! (k - 1) \<noteq> ''__proto__'' \<longrightarrow>
          (\<exists>r. map_of results (sequence cfg ! (k - 1)) = Some r \<and>
                (fatalError r \<or> \<not> success r \<and> stopOnFailure cfg)))"
    and keys: "recordedKeys (map fst results) attempted"
    by blast
  note f = recordedKeys_facts [OF keys]
  have len: "length results \<le> length attempted"
    using f(5) by simp
  have order: "map fst results =
           filter isArrayIndex (map fst results) @
           filter (\<lambda>k. \<not> isArrayIndex k \<and> k \<noteq> ''__proto__'') (firstOccurrences attempted)"
    using f(3) by (simp add: namedKeys_def)
  have dis: "distinct (sequence cfg) \<and>
          (\<forall>t \<in> set (sequence cfg). \<not> isArrayIndex t \<and> t \<noteq> ''__proto__'') \<longrightarrow>
            map fst results = attempted \<and> length results = length attempted"
  proof
    assume a: "distinct (sequence cfg) \<and>
          (\<forall>t \<in> set (sequence cfg). \<not> isArrayIndex t \<and> t \<noteq> ''__proto__'')"
    then have d: "distinct attempted" using k(2) by simp
    from a k(2) have plain: "\<forall>t \<in> set attempted. \<not> isArrayIndex t \<and> t \<noteq> ''__proto__''"
      by (auto dest: in_set_takeD)
    then have n: "namedKeys attempted = attempted"
      using d by (simp add: namedKeys_def firstOccurrences_distinct)
    from f(2) plain have "filter isArrayIndex (map fst results) = []"
      by (auto simp: filter_empty_conv)
    with f(3) n have "map fst results = attempted" by simp
    then show "map fst results = attempted \<and> length results = length attempted"
      by (metis length_map)
  qed
  have la: "length attempted \<le> length (sequence cfg)"
    using k(1,2) by simp
  from k have pre: "\<exists>k \<le> length (sequence cfg).
            attempted = take k (sequence cfg) \<and> (ok \<longrightarrow> k = length (sequence cfg)) \<and>
            (\<not> ok \<longrightarrow> 0 < k \<and>
               (sequence cfg ! (k - 1) \<noteq> ''__proto__'' \<longrightarrow>
                  (\<exists>r. map_of results (sequence cfg ! (k - 1)) = Some r \<and>
                       (fatalError r \<or> \<not> success r \<and> stopOnFailure cfg))))"
    by blast
  from pre f(1) f(2) order f(4) len la dis show ?thesis
    by (intro conjI)
qed

lemmas success_eval = worker_eval [unfolded failingWorld_def] successWorld_def

text \<open>
  C4 as stated fails: the results are keyed by task name, so a sequence that names a
  task twice attempts two tasks and records one entry.
\<close>

theorem repeated_task_leaves_one_entry:
  "fst (snd (executeAllTasks (breakerConfig [''sign'', ''sign'']) successWorld freshWorker)) =
     [(''sign'', \<lparr>success = True, fatalError = False, resultError = None,
                  resultData = Some ''accepted''\<rparr>)] \<and>
   fst (snd (snd (executeAllTasks (breakerConfig [''sign'', ''sign'']) successWorld freshWorker))) =
     [''sign'', ''sign''] \<and>
   length (fst (snd (executeAllTasks (breakerConfig [''sign'', ''sign'']) successWorld freshWorker))) = 1 \<and>
   length (fst (snd (snd (executeAllTasks (breakerConfig [''sign'', ''sign'']) successWorld
                            freshWorker)))) = 2"
  by (simp add: success_eval)

lemma fatal_run_value:
  "executeAllTasks (breakerConfig [''sign'', ''fractionAI:createAgent'', ''createEvent''])
       successWorld freshWorker =
     (False,
      [(''sign'', \<lparr>success = True, fatalError = False, resultError = None,
                   resultData = Some ''accepted''\<rparr>),
       (''fractionAI:createAgent'', fatalResult ''captcha recognition failed'')],
      [''sign'', ''fractionAI:createAgent''],
      freshWorker\<lparr>taskResults := [(''sign authorization'', True)], tasksCompleted := 1,
                  totalRequests := 1, failedStatus := True, ticks := 3,
                  events := [Stagger 1000, TaskAttempt ''sign'' 0, Pacing 2000,
                             TaskAttempt ''fractionAI:createAgent'' 0]\<rparr>)"
  by (simp add: success_eval fatalResult_def)


theorem executeAllTasks_results_witness:
  "executeAllTasks (breakerConfig [''sign'', ''fractionAI:createAgent'', ''createEvent''])
       successWorld freshWorker =
     (False,
      [(''sign'', \<lparr>success = True, fatalError = False, resultError = None,
                   resultData = Some ''accepted''\<rparr>),
       (''fractionAI:createAgent'', fatalResult ''captcha recognition failed'')],
      [''sign'', ''fractionAI:createAgent''],
      freshWorker\<lparr>taskResults := [(''sign authorization'', True)], tasksCompleted := 1,
                  totalRequests := 1, failedStatus := True, ticks := 3,
                  events := [Stagger 1000, TaskAttempt ''sign'' 0, Pacing 2000,
                             TaskAttempt ''fractionAI:createAgent'' 0]\<rparr>) \<and>
   distinct (sequence (breakerConfig [''sign'', ''fractionAI:createAgent'', ''createEvent''])) \<and>
   map fst [(''sign'', \<lparr>success = True, fatalError = False, resultError = None,
                         resultData = Some ''accepted''\<rparr>),
            (''fractionAI:createAgent'', fatalResult ''captcha recognition failed'')]
     = [''sign'', ''fractionAI:createAgent'']"
proof -
  have d: "distinct (sequence (breakerConfig [''sign'', ''fractionAI:createAgent'', ''createEvent'']))"
    by (simp add: breakerConfig_def)
  have n: "\<forall>t \<in> set (sequence (breakerConfig [''sign'', ''fractionAI:createAgent'', ''createEvent''])).
             \<not> isArrayIndex t \<and> t \<noteq> ''__proto__''"
    by (simp add: breakerConfig_def isArrayIndex_def isDigit_def)
  from executeAllTasks_results [OF fatal_run_value] d n fatal_run_value
  show ?thesis by blast
qed

subsection \<open>Fatal errors\<close>






end
